theory Spec2Isabelle
  imports Main
begin

section \<open>JavaScript values used by the action\<close>

text \<open>
  Strings are lists of code units. A \<^typ>\<open>char\<close> stands for a code unit in the range
  U+0000 to U+00FF, which is all the literals of the sources need. A value of type
  \<open>string | undefined\<close> is a \<^typ>\<open>string option\<close>, with \<^term>\<open>None\<close> for
  \<open>undefined\<close>.
\<close>

text \<open>The white space and line terminators that \<open>trim\<close> and \<open>parseInt\<close> strip, within that range:
  tab, line feed, vertical tab, form feed, carriage return, space and no-break space.\<close>

definition isWhiteSpace :: "char \<Rightarrow> bool" where
  "isWhiteSpace c =
     (c = CHR 0x09 \<or> c = CHR 0x0A \<or> c = CHR 0x0B \<or> c = CHR 0x0C \<or> c = CHR 0x0D \<or>
      c = CHR '' '' \<or> c = CHR 0xA0)"

text \<open>\<open>String.prototype.trim\<close>.\<close>

definition trim :: "string \<Rightarrow> string" where
  "trim s = rev (dropWhile isWhiteSpace (rev (dropWhile isWhiteSpace s)))"

text \<open>
  \<open>String.prototype.split\<close> with a separator of one code unit: the pieces between the
  separators, in order. The array is never empty (the empty string gives one empty piece),
  so the last case of the inner \<open>case\<close> is never taken (lemma \<open>split_not_Nil\<close>).
\<close>

fun split :: "char \<Rightarrow> string \<Rightarrow> string list" where
  "split sep [] = [[]]"
| "split sep (c # cs) =
     (if c = sep then [] # split sep cs
      else (case split sep cs of p # ps \<Rightarrow> (c # p) # ps | [] \<Rightarrow> [[c]]))"

text \<open>
  \<open>Array.prototype.join\<close> on an array of strings; an \<open>undefined\<close> element is joined as
  the empty string, which \<open>str_or_empty\<close> writes out.
\<close>

fun join :: "string \<Rightarrow> string list \<Rightarrow> string" where
  "join sep [] = []"
| "join sep [x] = x"
| "join sep (x # y # ys) = x @ sep @ join sep (y # ys)"

definition str_or_empty :: "string option \<Rightarrow> string" where
  "str_or_empty v = (case v of None \<Rightarrow> [] | Some s \<Rightarrow> s)"

text \<open>Template literals and \<open>encodeURIComponent\<close> turn \<open>undefined\<close> into the text \<open>undefined\<close>.\<close>

definition ToString :: "string option \<Rightarrow> string" where
  "ToString v = (case v of None \<Rightarrow> ''undefined'' | Some s \<Rightarrow> s)"

text \<open>
  \<open>String.prototype.includes\<close>: the search string occurs somewhere in the string. Matching
  a regular expression that is a plain literal, as \<open>/does not exist/\<close>, is the same test.
\<close>

fun startsWith :: "string \<Rightarrow> string \<Rightarrow> bool" where
  "startsWith s [] = True"
| "startsWith [] (p # ps) = False"
| "startsWith (c # cs) (p # ps) = (c = p \<and> startsWith cs ps)"

fun str_includes :: "string \<Rightarrow> string \<Rightarrow> bool" where
  "str_includes [] searchString = (searchString = [])"
| "str_includes (c # cs) searchString =
     (startsWith (c # cs) searchString \<or> str_includes cs searchString)"

text \<open>Truthiness of a \<open>string | undefined\<close>: \<open>undefined\<close> and the empty string are falsy.\<close>

definition truthy :: "string option \<Rightarrow> bool" where
  "truthy v = (case v of None \<Rightarrow> False | Some s \<Rightarrow> s \<noteq> [])"

subsection \<open>Map objects\<close>

text \<open>
  A JavaScript \<open>Map\<close> keeps its entries in the order in which the keys were first set;
  setting a key that is present replaces the value in place.
\<close>

type_synonym ('k, 'v) js_map = "('k \<times> 'v) list"

fun map_get :: "('k, 'v) js_map \<Rightarrow> 'k \<Rightarrow> 'v option" where
  "map_get [] k = None"
| "map_get ((k', v) # m) k = (if k' = k then Some v else map_get m k)"

fun map_set :: "('k, 'v) js_map \<Rightarrow> 'k \<Rightarrow> 'v \<Rightarrow> ('k, 'v) js_map" where
  "map_set [] k v = [(k, v)]"
| "map_set ((k', v') # m) k v = (if k' = k then (k, v) # m else (k', v') # map_set m k v)"

definition map_keys :: "('k, 'v) js_map \<Rightarrow> 'k list" where
  "map_keys m = map fst m"

subsection \<open>Numbers and \<open>parseInt\<close>\<close>

text \<open>
  A JavaScript number is a double. The numbers that \<open>parseInt\<close> yields are \<open>NaN\<close>, the two
  infinities, and the doubles of integral value: \<^term>\<open>Num n\<close> is the double whose value is
  the integer \<open>n\<close>. Both zeros are \<^term>\<open>Num 0\<close>.
\<close>

datatype number = NaN | Num int | PosInfinity | NegInfinity

text \<open>The number of binary digits of a natural number.\<close>

fun bit_length :: "nat \<Rightarrow> nat" where
  "bit_length n = (if n = 0 then 0 else Suc (bit_length (n div 2)))"

declare bit_length.simps [simp del]

text \<open>
  The value of the double nearest to a natural number: the number itself below \<open>2^53\<close>,
  and else its leading 53 binary digits, rounded to nearest with ties to even, followed by
  zeros. From \<open>2^1024\<close> on that value is beyond the largest double.
\<close>

definition roundToDouble :: "nat \<Rightarrow> nat" where
  "roundToDouble n =
     (if n < 2 ^ 53 then n
      else let e = bit_length n - 53;
               q = n div 2 ^ e;
               r = n mod 2 ^ e;
               half = 2 ^ (e - 1)
           in (if half < r \<or> (r = half \<and> odd q) then q + 1 else q) * 2 ^ e)"

definition overflows :: "nat \<Rightarrow> bool" where
  "overflows d = (2 ^ 1024 \<le> d)"

text \<open>
  The number for the mathematical integer \<open>sign * n\<close>: the double nearest to it. (Past 20
  significant decimal digits the language lets an implementation approximate the integer
  first; the model rounds the exact value, as Node's engine does.)
\<close>

definition toNumber :: "int \<Rightarrow> nat \<Rightarrow> number" where
  "toNumber sign n =
     (let d = roundToDouble n
      in if overflows d then (if sign < 0 then NegInfinity else PosInfinity)
         else Num (sign * int d))"

text \<open>The value of a code unit as a digit (\<open>0-9\<close>, \<open>a-z\<close>, \<open>A-Z\<close>), and as a digit of radix \<open>R\<close>.\<close>

definition digitValue :: "char \<Rightarrow> nat option" where
  "digitValue c =
     (let n = (of_char c :: nat) in
      if 48 \<le> n \<and> n \<le> 57 then Some (n - 48)
      else if 97 \<le> n \<and> n \<le> 122 then Some (n - 87)
      else if 65 \<le> n \<and> n \<le> 90 then Some (n - 55)
      else None)"

definition isRadixDigit :: "nat \<Rightarrow> char \<Rightarrow> bool" where
  "isRadixDigit R c = (case digitValue c of None \<Rightarrow> False | Some d \<Rightarrow> d < R)"

text \<open>The integer denoted by a string of radix-\<open>R\<close> digits, most significant first.\<close>

definition mathInt :: "nat \<Rightarrow> string \<Rightarrow> nat" where
  "mathInt R Z = foldl (\<lambda>acc c. acc * R + (case digitValue c of None \<Rightarrow> 0 | Some d \<Rightarrow> d)) 0 Z"

text \<open>
  \<open>parseInt(string)\<close> with no radix argument: skip leading white space, read a sign, read a
  \<open>0x\<close> or \<open>0X\<close> prefix (radix 16, else radix 10), take the longest run of digits of that
  radix; \<open>NaN\<close> when that run is empty, and else the number for the signed integer that the
  digits denote.
\<close>

definition parseInt :: "string \<Rightarrow> number" where
  "parseInt string =
     (let S = dropWhile isWhiteSpace string;
          sign = (case S of c # _ \<Rightarrow> if c = CHR ''-'' then - 1 else 1 | [] \<Rightarrow> (1 :: int));
          S1 = (case S of c # cs \<Rightarrow> if c = CHR ''+'' \<or> c = CHR ''-'' then cs else S | [] \<Rightarrow> S);
          hex = (case S1 of a # b # _ \<Rightarrow> a = CHR ''0'' \<and> (b = CHR ''x'' \<or> b = CHR ''X'') | _ \<Rightarrow> False);
          R = (if hex then 16 else 10);
          S2 = (if hex then drop 2 S1 else S1);
          Z = takeWhile (isRadixDigit R) S2
      in if Z = [] then NaN else toNumber sign (mathInt R Z))"

text \<open>Truthiness of a number: \<open>NaN\<close> and zero are falsy.\<close>

fun ToBoolean :: "number \<Rightarrow> bool" where
  "ToBoolean NaN = False"
| "ToBoolean (Num n) = (n \<noteq> 0)"
| "ToBoolean PosInfinity = True"
| "ToBoolean NegInfinity = True"

section \<open>Field parsers (\<open>utils.ts\<close>)\<close>

text \<open>\<open>parseNumber\<close>: \<open>parseInt(s) || undefined\<close>.\<close>

definition parseNumber :: "string \<Rightarrow> number option" where
  "parseNumber s = (let n = parseInt s in if ToBoolean n then Some n else None)"

text \<open>The \<open>Parameter\<close> objects that \<open>parseParameters\<close> builds.\<close>

record parameter =
  ParameterKey :: string
  ParameterValue :: "string option"

text \<open>
  The destructuring \<open>const [key, value] = parameter.trim().split('=')\<close>: \<open>key\<close> is the
  first piece, \<open>value\<close> the second piece or \<open>undefined\<close> when there is none; further pieces
  are not read.
\<close>

definition key_value :: "string \<Rightarrow> string \<times> string option" where
  "key_value parameter =
     (case split CHR ''='' (trim parameter) of
        [] \<Rightarrow> ([], None)
      | [key] \<Rightarrow> (key, None)
      | key # value # _ \<Rightarrow> (key, Some value))"

text \<open>
  \<open>parameters.get(key)\<close> is \<open>undefined\<close> for a key that is not in the map and also for
  a key stored with an \<open>undefined\<close> value.
\<close>

definition get_param :: "(string, string option) js_map \<Rightarrow> string \<Rightarrow> string option" where
  "get_param parameters key = (case map_get parameters key of None \<Rightarrow> None | Some v \<Rightarrow> v)"

text \<open>The assignment \<open>param = !param ? value : [param, value].join(',')\<close>.\<close>

definition merged :: "string option \<Rightarrow> string option \<Rightarrow> string option" where
  "merged param value =
     (if \<not> truthy param then value
      else Some (join '','' [str_or_empty param, str_or_empty value]))"

text \<open>The body of the \<open>forEach\<close> callback.\<close>

definition add_parameter ::
  "(string, string option) js_map \<Rightarrow> string \<Rightarrow> (string, string option) js_map" where
  "add_parameter parameters parameter =
     (let (key, value) = key_value parameter;
          param = get_param parameters key
      in map_set parameters key (merged param value))"

definition parameters_of :: "string \<Rightarrow> (string, string option) js_map" where
  "parameters_of parameterOverrides =
     foldl add_parameter [] (split CHR '','' parameterOverrides)"

definition parseParameters :: "string \<Rightarrow> parameter list" where
  "parseParameters parameterOverrides =
     (let parameters = parameters_of parameterOverrides
      in map (\<lambda>key. \<lparr>ParameterKey = key, ParameterValue = get_param parameters key\<rparr>)
             (map_keys parameters))"

section \<open>The provider and the calls of a run\<close>

text \<open>
  The type declarations \<open>CreateStackInput\<close> and \<open>CreateChangeSetInput\<close> are imported from
  \<open>./main\<close>, and the shapes of stacks, outputs and errors from the provider's SDK; the
  records below have the fields that \<open>deploy.ts\<close> reads or writes. An optional field is an
  \<open>option\<close>.
\<close>

record tag =
  Key :: string
  Value :: string

record rollback_configuration =
  RollbackTriggers :: "(string \<times> string) list option"
  MonitoringTimeInMinutes :: "int option"

record create_stack_input =
  StackName :: string
  TemplateBody :: "string option"
  Parameters :: "parameter list option"
  Capabilities :: "string list option"
  ResourceTypes :: "string list option"
  RoleARN :: "string option"
  RollbackConfiguration :: "rollback_configuration option"
  NotificationARNs :: "string list option"
  Tags :: "tag list option"

record create_change_set_input = create_stack_input +
  ChangeSetName :: string

record stack_output =
  OutputKey :: "string option"
  OutputValue :: "string option"

record stack =
  StackId :: "string option"
  Outputs :: "stack_output list option"

record change_set_status =
  Status :: "string option"
  StatusReason :: "string option"

text \<open>
  What a rejected promise carries: an error of the provider's SDK with its \<open>code\<close> and
  \<open>message\<close>, or a plain \<open>Error\<close> with a message only.
\<close>

datatype error = AWSError string string | Error string

fun error_code :: "error \<Rightarrow> string option" where
  "error_code (AWSError c m) = Some c"
| "error_code (Error m) = None"

fun error_message :: "error \<Rightarrow> string" where
  "error_message (AWSError c m) = m"
| "error_message (Error m) = m"

text \<open>The states \<open>waitFor\<close> is asked to wait for, each with the parameters it is given.\<close>

datatype waiter =
    changeSetCreateComplete string string
  | stackUpdateComplete "string option"
  | stackCreateComplete string

text \<open>
  The requests a run sends out, to the provider and to the link shortener. Those on a change
  set carry the change-set name first and the stack name second.
\<close>

datatype call =
    DescribeStacks string
  | CreateStack create_stack_input
  | CreateChangeSet create_change_set_input
  | DescribeChangeSet string string
  | DeleteChangeSet string string
  | ExecuteChangeSet string string
  | WaitFor waiter
  | ShortenUrl string

text \<open>
  The client \<open>cfn\<close>. What the provider answers to a request may depend on everything that
  was requested before, so every operation takes the calls made so far. \<open>createStack\<close>
  answers with the \<open>StackId\<close> of its response and \<open>createChangeSet\<close> with the \<open>Id\<close>, the
  only fields read.
\<close>

record cfn =
  describeStacks :: "call list \<Rightarrow> string \<Rightarrow> error + stack list option"
  createStack :: "call list \<Rightarrow> create_stack_input \<Rightarrow> error + string option"
  createChangeSet :: "call list \<Rightarrow> create_change_set_input \<Rightarrow> error + string option"
  describeChangeSet :: "call list \<Rightarrow> string \<Rightarrow> string \<Rightarrow> error + change_set_status"
  deleteChangeSet :: "call list \<Rightarrow> string \<Rightarrow> string \<Rightarrow> error + unit"
  executeChangeSet :: "call list \<Rightarrow> string \<Rightarrow> string \<Rightarrow> error + unit"
  waitFor :: "call list \<Rightarrow> waiter \<Rightarrow> error + unit"

text \<open>
  What \<open>genCfnUrl\<close> takes from its surroundings: \<open>aws.config.region\<close>, the built-in
  \<open>encodeURIComponent\<close>, and the link shortener that \<open>axios.post\<close> reaches, which answers
  with the \<open>link\<close> of its response.
\<close>

record env =
  region :: "string option"
  encodeURIComponent :: "string \<Rightarrow> string"
  shorten :: "call list \<Rightarrow> string \<Rightarrow> error + string"

text \<open>
  An asynchronous computation takes the calls made so far and gives its outcome, a raised
  error (\<open>Inl\<close>) or a value (\<open>Inr\<close>), with the calls made by its end. Logging through
  \<open>core.info\<close> and \<open>core.debug\<close> is not part of the model.
\<close>

type_synonym 'a io = "call list \<Rightarrow> (error + 'a) \<times> call list"

definition return :: "'a \<Rightarrow> 'a io" where
  "return x = (\<lambda>tr. (Inr x, tr))"

definition throw :: "error \<Rightarrow> 'a io" where
  "throw e = (\<lambda>tr. (Inl e, tr))"

definition await :: "'a io \<Rightarrow> ('a \<Rightarrow> 'b io) \<Rightarrow> 'b io" where
  "await m f = (\<lambda>tr. case m tr of (Inl e, tr') \<Rightarrow> (Inl e, tr') | (Inr x, tr') \<Rightarrow> f x tr')"

text \<open>The body of a \<open>try\<close>: its outcome is handed on as a value, nothing is raised.\<close>

definition attempt :: "'a io \<Rightarrow> (error + 'a) io" where
  "attempt m = (\<lambda>tr. case m tr of (r, tr') \<Rightarrow> (Inr r, tr'))"

text \<open>Sending a request: the answer is the provider's, and the call is recorded.\<close>

definition request :: "call \<Rightarrow> (call list \<Rightarrow> error + 'a) \<Rightarrow> 'a io" where
  "request c answer = (\<lambda>tr. (answer tr, tr @ [c]))"

section \<open>Deployment (\<open>deploy.ts\<close>)\<close>

definition genCfnUrl :: "env \<Rightarrow> string option \<Rightarrow> string option \<Rightarrow> string io" where
  "genCfnUrl env stackArn changeSetArn =
     (let pieces =
            [''https://console.aws.amazon.com/cloudformation/home'',
             ''?region='' @ ToString (region env) @ ''#/stacks/changesets/changes'',
             ''?stackId='' @ encodeURIComponent env (ToString stackArn),
             ''&changeSetId='' @ encodeURIComponent env (ToString changeSetArn)];
          url = join [] pieces
      in request (ShortenUrl url) (\<lambda>tr. shorten env tr url))"

definition knownErrorMessages :: "string list" where
  "knownErrorMessages =
     [''No updates are to be performed'',
      ''The submitted information didn't contain changes'']"

definition cleanupChangeSet ::
  "cfn \<Rightarrow> stack \<Rightarrow> create_change_set_input \<Rightarrow> bool \<Rightarrow> bool \<Rightarrow> string option io" where
  "cleanupChangeSet cfn stack params noEmptyChangeSet noDeleteFailedChangeSet =
     await (request (DescribeChangeSet (ChangeSetName params) (StackName params))
              (\<lambda>tr. describeChangeSet cfn tr (ChangeSetName params) (StackName params)))
       (\<lambda>changeSetStatus.
          if Status changeSetStatus = Some ''FAILED'' then
            await (if \<not> noDeleteFailedChangeSet
                   then request (DeleteChangeSet (ChangeSetName params) (StackName params))
                          (\<lambda>tr. deleteChangeSet cfn tr (ChangeSetName params) (StackName params))
                   else return ())
              (\<lambda>_. if noEmptyChangeSet \<and>
                       list_ex (\<lambda>err. case StatusReason changeSetStatus of
                                         None \<Rightarrow> False
                                       | Some reason \<Rightarrow> str_includes reason err)
                         knownErrorMessages
                    then return (StackId stack)
                    else throw (Error (''Failed to create Change Set: '' @
                                       ToString (StatusReason changeSetStatus))))
          else return None)"

definition updateStack ::
  "env \<Rightarrow> cfn \<Rightarrow> stack \<Rightarrow> create_change_set_input \<Rightarrow> bool \<Rightarrow> bool \<Rightarrow> bool \<Rightarrow>
     string option io" where
  "updateStack env cfn stack params noEmptyChangeSet noExecuteChageSet noDeleteFailedChangeSet =
     await (request (CreateChangeSet params) (\<lambda>tr. createChangeSet cfn tr params))
       (\<lambda>cset.
          await (attempt
                   (request (WaitFor (changeSetCreateComplete (ChangeSetName params) (StackName params)))
                      (\<lambda>tr. waitFor cfn tr
                               (changeSetCreateComplete (ChangeSetName params) (StackName params)))))
            (\<lambda>waited. case waited of
               Inl e \<Rightarrow>
                 cleanupChangeSet cfn stack params noEmptyChangeSet noDeleteFailedChangeSet
             | Inr _ \<Rightarrow>
                 if noExecuteChageSet then
                   await (genCfnUrl env (StackId stack) cset) (\<lambda>_. return (StackId stack))
                 else
                   await (request (ExecuteChangeSet (ChangeSetName params) (StackName params))
                            (\<lambda>tr. executeChangeSet cfn tr (ChangeSetName params) (StackName params)))
                     (\<lambda>_. await (request (WaitFor (stackUpdateComplete (StackId stack)))
                                   (\<lambda>tr. waitFor cfn tr (stackUpdateComplete (StackId stack))))
                            (\<lambda>_. return (StackId stack)))))"

definition getStack :: "cfn \<Rightarrow> string \<Rightarrow> stack option io" where
  "getStack cfn stackNameOrId =
     await (attempt (request (DescribeStacks stackNameOrId)
                       (\<lambda>tr. describeStacks cfn tr stackNameOrId)))
       (\<lambda>described. case described of
          Inr stacks \<Rightarrow>
            return (case stacks of None \<Rightarrow> None | Some [] \<Rightarrow> None | Some (s # _) \<Rightarrow> Some s)
        | Inl e \<Rightarrow>
            if error_code e = Some ''ValidationError'' \<and>
               str_includes (error_message e) ''does not exist''
            then return None
            else throw e)"

text \<open>The change-set request that \<open>deployStack\<close> builds from its parameters.\<close>

definition change_set_request :: "create_stack_input \<Rightarrow> create_change_set_input" where
  "change_set_request params =
     \<lparr>StackName = StackName params,
      TemplateBody = TemplateBody params,
      Parameters = Parameters params,
      Capabilities = Capabilities params,
      ResourceTypes = ResourceTypes params,
      RoleARN = RoleARN params,
      RollbackConfiguration = RollbackConfiguration params,
      NotificationARNs = NotificationARNs params,
      Tags = Tags params,
      ChangeSetName = StackName params @ ''-CS''\<rparr>"

definition deployStack ::
  "env \<Rightarrow> cfn \<Rightarrow> create_stack_input \<Rightarrow> bool \<Rightarrow> bool \<Rightarrow> bool \<Rightarrow> string option io" where
  "deployStack env cfn params noEmptyChangeSet noExecuteChageSet noDeleteFailedChangeSet =
     await (getStack cfn (StackName params))
       (\<lambda>found. case found of
          None \<Rightarrow>
            await (request (CreateStack params) (\<lambda>tr. createStack cfn tr params))
              (\<lambda>stackId. await (request (WaitFor (stackCreateComplete (StackName params)))
                                  (\<lambda>tr. waitFor cfn tr (stackCreateComplete (StackName params))))
                           (\<lambda>_. return stackId))
        | Some stack \<Rightarrow>
            updateStack env cfn stack (change_set_request params)
              noEmptyChangeSet noExecuteChageSet noDeleteFailedChangeSet)"

text \<open>The body of the loop over \<open>stack.Outputs\<close>.\<close>

definition add_output :: "(string, string) js_map \<Rightarrow> stack_output \<Rightarrow> (string, string) js_map" where
  "add_output outputs out =
     (case (OutputKey out, OutputValue out) of
        (Some k, Some v) \<Rightarrow> if k \<noteq> [] \<and> v \<noteq> [] then map_set outputs k v else outputs
      | _ \<Rightarrow> outputs)"

definition getStackOutputs :: "cfn \<Rightarrow> string \<Rightarrow> (string, string) js_map io" where
  "getStackOutputs cfn stackId =
     await (getStack cfn stackId)
       (\<lambda>found. return (case found of
          None \<Rightarrow> []
        | Some stack \<Rightarrow>
            (case Outputs stack of None \<Rightarrow> [] | Some outs \<Rightarrow> foldl add_output [] outs)))"

text \<open>
  The outputs that the loop stores, those whose key and value are both truthy, and the
  entry stored for such an output.
\<close>

definition kept :: "stack_output \<Rightarrow> bool" where
  "kept out = (truthy (OutputKey out) \<and> truthy (OutputValue out))"

definition entry :: "stack_output \<Rightarrow> string \<times> string" where
  "entry out = (str_or_empty (OutputKey out), str_or_empty (OutputValue out))"

section \<open>Reading the calls of a run\<close>

text \<open>The calls a run has made, given the calls made before it and those made by its end.\<close>

definition issued :: "call list \<Rightarrow> call list \<Rightarrow> call list" where
  "issued before after = drop (length before) after"

text \<open>The operations on a change set, and the change-set name that a call carries.\<close>

fun change_set_operation :: "call \<Rightarrow> bool" where
  "change_set_operation (CreateChangeSet p) = True"
| "change_set_operation (DescribeChangeSet n s) = True"
| "change_set_operation (DeleteChangeSet n s) = True"
| "change_set_operation (ExecuteChangeSet n s) = True"
| "change_set_operation c = False"

fun stack_creation :: "call \<Rightarrow> bool" where
  "stack_creation (CreateStack p) = True"
| "stack_creation c = False"

fun change_set_name :: "call \<Rightarrow> string option" where
  "change_set_name (CreateChangeSet p) = Some (ChangeSetName p)"
| "change_set_name (DescribeChangeSet n s) = Some n"
| "change_set_name (DeleteChangeSet n s) = Some n"
| "change_set_name (ExecuteChangeSet n s) = Some n"
| "change_set_name (WaitFor (changeSetCreateComplete n s)) = Some n"
| "change_set_name c = None"

section \<open>Example providers and inputs\<close>

text \<open>
  A stack \<open>web\<close> with four outputs, one with an empty value and one with none, and a
  provider that knows the stack: every request is accepted,
  except that the wait for the change set fails, and the change set is then reported as
  \<open>FAILED\<close> for want of changes.
\<close>

definition example_stack :: stack where
  "example_stack =
     \<lparr>StackId = Some ''arn:aws:cloudformation:stack/web/1'',
      Outputs = Some [\<lparr>OutputKey = Some ''Url'', OutputValue = Some ''https://web''\<rparr>,
                      \<lparr>OutputKey = Some ''Note'', OutputValue = Some []\<rparr>,
                      \<lparr>OutputKey = Some ''Zone'', OutputValue = None\<rparr>,
                      \<lparr>OutputKey = Some ''Port'', OutputValue = Some ''443''\<rparr>]\<rparr>"

definition example_params :: create_stack_input where
  "example_params =
     \<lparr>StackName = ''web'', TemplateBody = Some ''Resources: {}'', Parameters = None,
      Capabilities = None, ResourceTypes = None, RoleARN = None,
      RollbackConfiguration = None, NotificationARNs = None, Tags = None\<rparr>"

definition example_env :: env where
  "example_env =
     \<lparr>region = Some ''eu-west-1'', encodeURIComponent = (\<lambda>s. s),
      shorten = (\<lambda>tr url. Inr ''https://bit.ly/3abc'')\<rparr>"

definition example_cfn :: cfn where
  "example_cfn =
     \<lparr>describeStacks = (\<lambda>tr name. Inr (Some [example_stack])),
      createStack = (\<lambda>tr p. Inr (Some ''arn:aws:cloudformation:stack/web/2'')),
      createChangeSet = (\<lambda>tr p. Inr (Some ''arn:aws:cloudformation:changeSet/web-CS/1'')),
      describeChangeSet =
        (\<lambda>tr n s. Inr \<lparr>Status = Some ''FAILED'',
                        StatusReason = Some ''No updates are to be performed.''\<rparr>),
      deleteChangeSet = (\<lambda>tr n s. Inr ()),
      executeChangeSet = (\<lambda>tr n s. Inr ()),
      waitFor =
        (\<lambda>tr w. case w of
           changeSetCreateComplete n s \<Rightarrow>
             Inl (AWSError ''ResourceNotReady'' ''Resource is not in the state changeSetCreateComplete'')
         | _ \<Rightarrow> Inr ())\<rparr>"

text \<open>The same provider where no stack \<open>web\<close> exists.\<close>

definition example_cfn_absent :: cfn where
  "example_cfn_absent =
     example_cfn\<lparr>describeStacks :=
       (\<lambda>tr name. Inl (AWSError ''ValidationError'' ''Stack with id web does not exist''))\<rparr>"

text \<open>
  Variants of that provider: one whose lookup succeeds and lists no stack, one whose lookup
  is refused, one that refuses to delete a change set, one that knows no stack \<open>web\<close> and
  refuses to create it, and one whose change set is still being created when its status is
  fetched.
\<close>

definition example_cfn_lists_nothing :: cfn where
  "example_cfn_lists_nothing = example_cfn\<lparr>describeStacks := (\<lambda>tr name. Inr (Some []))\<rparr>"

definition example_cfn_denied :: cfn where
  "example_cfn_denied =
     example_cfn\<lparr>describeStacks :=
       (\<lambda>tr name. Inl (AWSError ''AccessDenied'' ''not authorized to perform DescribeStacks''))\<rparr>"

definition example_cfn_delete_denied :: cfn where
  "example_cfn_delete_denied =
     example_cfn\<lparr>deleteChangeSet :=
       (\<lambda>tr n s. Inl (AWSError ''AccessDenied'' ''not authorized to perform DeleteChangeSet''))\<rparr>"

definition example_cfn_create_refused :: cfn where
  "example_cfn_create_refused =
     example_cfn_absent\<lparr>createStack :=
       (\<lambda>tr p. Inl (AWSError ''InsufficientCapabilitiesException''
                         ''Requires capabilities : [CAPABILITY_IAM]''))\<rparr>"

definition example_cfn_pending :: cfn where
  "example_cfn_pending =
     example_cfn\<lparr>describeChangeSet :=
       (\<lambda>tr n s. Inr \<lparr>Status = Some ''CREATE_IN_PROGRESS'', StatusReason = None\<rparr>)\<rparr>"

lemmas io_defs = return_def throw_def await_def attempt_def request_def

lemmas example_defs = example_cfn_def example_cfn_absent_def example_cfn_lists_nothing_def
  example_cfn_denied_def example_cfn_delete_denied_def example_cfn_create_refused_def
  example_cfn_pending_def
  example_params_def example_env_def change_set_request_def

section \<open>Strings, maps and numbers\<close>

lemma split_not_Nil: "split sep s \<noteq> []"
  by (induction s) (auto split: list.splits)



lemma join_Cons: "join sep (x # xs) = (if xs = [] then x else x @ sep @ join sep xs)"
  by (cases xs) auto

text \<open>\<open>split\<close> cuts at every separator and nowhere else: joining the pieces gives the string
  back, no piece holds a separator, and pieces that hold none are found again.\<close>

lemma join_split: "join [sep] (split sep s) = s"
  by (induction s) (auto simp: join_Cons split_not_Nil split: list.splits)

lemma split_pieces: "list_all (\<lambda>p. sep \<notin> set p) (split sep s)"
  by (induction s) (auto split: list.splits)


text \<open>\<open>str_includes\<close> holds exactly when the search string is a contiguous part of the string.\<close>

lemma startsWith_iff: "startsWith s p \<longleftrightarrow> (\<exists>post. s = p @ post)"
  by (induction s p rule: startsWith.induct) auto

lemma str_includes_iff: "str_includes s p \<longleftrightarrow> (\<exists>pre post. s = pre @ p @ post)"
proof (induction s)
  case Nil
  then show ?case by simp
next
  case (Cons c cs)
  show ?case
  proof
    assume "str_includes (c # cs) p"
    then consider "startsWith (c # cs) p" | "str_includes cs p" by auto
    then show "\<exists>pre post. c # cs = pre @ p @ post"
    proof cases
      case 1
      then obtain post where "c # cs = p @ post" by (auto simp: startsWith_iff)
      then have "c # cs = [] @ p @ post" by simp
      then show ?thesis by blast
    next
      case 2
      then obtain pre post where "cs = pre @ p @ post" using Cons.IH by auto
      then have "c # cs = (c # pre) @ p @ post" by simp
      then show ?thesis by blast
    qed
  next
    assume "\<exists>pre post. c # cs = pre @ p @ post"
    then obtain pre post where eq: "c # cs = pre @ p @ post" by blast
    show "str_includes (c # cs) p"
    proof (cases pre)
      case Nil
      with eq have "startsWith (c # cs) p" by (auto simp: startsWith_iff)
      then show ?thesis by simp
    next
      case (Cons a pre')
      with eq have "cs = pre' @ p @ post" by simp
      then have "str_includes cs p" using Cons.IH by blast
      then show ?thesis by simp
    qed
  qed
qed

lemma map_get_set: "map_get (map_set m k v) k' = (if k' = k then Some v else map_get m k')"
  by (induction m) auto

lemma map_keys_set:
  "map_keys (map_set m k v) = (if k \<in> set (map_keys m) then map_keys m else map_keys m @ [k])"
  by (induction m) (force simp: map_keys_def)+

lemma map_get_None_iff: "map_get m k = None \<longleftrightarrow> k \<notin> set (map_keys m)"
  by (induction m) (force simp: map_keys_def split: if_splits)+

lemma digit_not_white: "isRadixDigit R c \<Longrightarrow> \<not> isWhiteSpace c"
  by (auto simp: isRadixDigit_def digitValue_def isWhiteSpace_def Let_def
           split: if_splits option.splits)

lemma digit_not_sign: "isRadixDigit R c \<Longrightarrow> c \<noteq> CHR ''+'' \<and> c \<noteq> CHR ''-''"
  by (auto simp: isRadixDigit_def digitValue_def Let_def split: if_splits option.splits)

lemma zero_is_digit: "isRadixDigit 10 CHR ''0''"
  by (simp add: isRadixDigit_def digitValue_def)

lemma dropWhile_white:
  "list_all isWhiteSpace ws \<Longrightarrow> (t = [] \<or> \<not> isWhiteSpace (hd t)) \<Longrightarrow>
     dropWhile isWhiteSpace (ws @ t) = t"
  by (induction ws; cases t; simp)

lemma takeWhile_digits:
  "list_all P ds \<Longrightarrow> (rest = [] \<or> \<not> P (hd rest)) \<Longrightarrow> takeWhile P (ds @ rest) = ds"
  by (induction ds; cases rest; simp)

text \<open>
  \<open>parseInt\<close> on a decimal numeral: white space \<open>ws\<close>, an optional sign \<open>sg\<close>, the digits
  \<open>ds\<close>, and a rest that does not go on with a digit (nor make \<open>0x\<close> of a single \<open>0\<close>).
\<close>

lemma parseInt_decimal:
  assumes ws: "list_all isWhiteSpace ws"
    and sg: "sg = [] \<or> sg = ''+'' \<or> sg = ''-''"
    and ds: "ds \<noteq> []" "list_all (isRadixDigit 10) ds"
    and rest: "rest = [] \<or> \<not> isRadixDigit 10 (hd rest)"
    and nohex: "\<not> startsWith (ds @ rest) ''0x''" "\<not> startsWith (ds @ rest) ''0X''"
  shows "parseInt (ws @ sg @ ds @ rest) =
           toNumber (if sg = ''-'' then - 1 else 1) (mathInt 10 ds)"
proof -
  obtain d ds' where dsC: "ds = d # ds'" using ds(1) by (cases ds) auto
  have d: "isRadixDigit 10 d" using ds(2) dsC by simp
  have S: "dropWhile isWhiteSpace (ws @ sg @ ds @ rest) = sg @ ds @ rest"
    using sg dsC digit_not_white[OF d]
    by (intro dropWhile_white[OF ws]) (auto simp: isWhiteSpace_def)
  have tw: "takeWhile (isRadixDigit 10) (ds @ rest) = ds"
    using takeWhile_digits[OF ds(2) rest] .
  have hex: "\<not> (case ds @ rest of
                  a # b # _ \<Rightarrow> a = CHR ''0'' \<and> (b = CHR ''x'' \<or> b = CHR ''X'')
                | _ \<Rightarrow> False)"
    using nohex by (auto split: list.splits)
  from sg show ?thesis
  proof (elim disjE)
    assume "sg = []"
    then show ?thesis
      using S tw hex dsC digit_not_sign[OF d]
      by (simp add: parseInt_def Let_def del: takeWhile_append2 split: list.splits)
  next
    assume "sg = ''+''"
    then show ?thesis
      using S tw hex dsC by (simp add: parseInt_def Let_def)
  next
    assume "sg = ''-''"
    then show ?thesis
      using S tw hex dsC by (simp add: parseInt_def Let_def)
  qed
qed

text \<open>\<open>parseInt\<close> fails when no digit follows the white space and the optional sign.\<close>

lemma parseInt_no_digit:
  assumes ws: "list_all isWhiteSpace ws"
    and sg: "sg = ''+'' \<or> sg = ''-'' \<or>
             sg = [] \<and> (rest = [] \<or> \<not> isWhiteSpace (hd rest) \<and>
                                     hd rest \<noteq> CHR ''+'' \<and> hd rest \<noteq> CHR ''-'')"
    and rest: "rest = [] \<or> \<not> isRadixDigit 10 (hd rest)"
  shows "parseInt (ws @ sg @ rest) = NaN"
proof -
  have S: "dropWhile isWhiteSpace (ws @ sg @ rest) = sg @ rest"
    using sg by (intro dropWhile_white[OF ws]) (auto simp: isWhiteSpace_def)
  have nohex: "\<not> (case rest of
                    a # b # _ \<Rightarrow> a = CHR ''0'' \<and> (b = CHR ''x'' \<or> b = CHR ''X'')
                  | _ \<Rightarrow> False)"
    using rest zero_is_digit by (auto split: list.splits)
  have tw: "takeWhile (isRadixDigit 10) rest = []"
    using rest by (cases rest) auto
  from sg show ?thesis
  proof (elim disjE)
    assume "sg = ''+''"
    then show ?thesis using tw nohex unfolding parseInt_def S by (simp add: Let_def)
  next
    assume "sg = ''-''"
    then show ?thesis using tw nohex unfolding parseInt_def S by (simp add: Let_def)
  next
    assume a: "sg = [] \<and> (rest = [] \<or> \<not> isWhiteSpace (hd rest) \<and>
                                      hd rest \<noteq> CHR ''+'' \<and> hd rest \<noteq> CHR ''-'')"
    show ?thesis
    proof (cases rest)
      case Nil
      then show ?thesis using a unfolding parseInt_def S by (simp add: Let_def)
    next
      case (Cons c cs)
      then show ?thesis using a tw nohex unfolding parseInt_def S by (simp add: Let_def)
    qed
  qed
qed

text \<open>Rounding keeps the numbers below \<open>2^53\<close> and never yields zero for another number.\<close>

lemma bit_length_le: "0 < n \<Longrightarrow> 2 ^ (bit_length n - 1) \<le> n"
proof (induction n rule: bit_length.induct)
  case (1 n)
  show ?case
  proof (cases "n div 2 = 0")
    case True
    with "1.prems" have "n = 1" by presburger
    then show ?thesis by (simp add: bit_length.simps)
  next
    case False
    then have ih: "2 ^ (bit_length (n div 2) - 1) \<le> n div 2"
      using "1.IH" "1.prems" by simp
    obtain k where k: "bit_length (n div 2) = Suc k"
      using False
      by (subst (asm) bit_length.simps[of "n div 2"]) (simp add: bit_length.simps[of "n div 2"])
    have bl: "bit_length n = Suc (Suc k)"
      using "1.prems" k by (subst bit_length.simps) simp
    have "2 ^ (bit_length n - 1) = 2 * 2 ^ k" by (simp add: bl)
    also have "\<dots> \<le> 2 * (n div 2)" using ih by (simp add: k)
    also have "\<dots> \<le> n" by simp
    finally show ?thesis .
  qed
qed

lemma roundToDouble_small: "n < 2 ^ 53 \<Longrightarrow> roundToDouble n = n"
  by (simp add: roundToDouble_def)

lemma roundToDouble_zero: "roundToDouble n = 0 \<longleftrightarrow> n = 0"
proof (cases "n < 2 ^ 53")
  case True
  then show ?thesis by (simp add: roundToDouble_small)
next
  case False
  define e where "e = bit_length n - 53"
  define q where "q = n div 2 ^ e"
  have pos: "0 < n" using False by (cases n) auto
  have "(2::nat) ^ e \<le> 2 ^ (bit_length n - 1)"
    unfolding e_def by (rule power_increasing) simp_all
  then have "2 ^ e \<le> n" using bit_length_le[OF pos] by (rule order_trans)
  then have q: "0 < q" unfolding q_def by (simp add: div_greater_zero_iff)
  have "roundToDouble n =
          (if 2 ^ (e - 1) < n mod 2 ^ e \<or> (n mod 2 ^ e = 2 ^ (e - 1) \<and> odd q)
           then q + 1 else q) * 2 ^ e"
    using False unfolding roundToDouble_def e_def q_def Let_def by (simp only: if_False)
  then have "roundToDouble n \<noteq> 0" using q by simp
  then show ?thesis using pos by simp
qed

lemma overflows_large: "overflows d \<Longrightarrow> 2 ^ 53 \<le> d"
proof -
  assume "overflows d"
  then have a: "(2::nat) ^ 1024 \<le> d" by (simp only: overflows_def)
  have b: "(2::nat) ^ 53 \<le> 2 ^ 1024" by (rule power_increasing) simp_all
  from b a show ?thesis by (rule order_trans)
qed

lemma toNumber_zero: "sign \<noteq> 0 \<Longrightarrow> toNumber sign n = Num 0 \<longleftrightarrow> n = 0"
proof (cases "overflows (roundToDouble n)")
  case True
  then have "2 ^ 53 \<le> roundToDouble n" by (rule overflows_large)
  then have "roundToDouble n \<noteq> 0" by (cases "roundToDouble n") simp_all
  then have "n \<noteq> 0" by (simp only: roundToDouble_zero not_False_eq_True)
  then show ?thesis using True by (simp add: toNumber_def Let_def)
next
  case False
  assume "sign \<noteq> 0"
  with False show ?thesis by (simp add: toNumber_def Let_def roundToDouble_zero)
qed

lemma toNumber_not_NaN: "toNumber sign n \<noteq> NaN"
  by (simp add: toNumber_def Let_def)

lemma toNumber_small: "n < 2 ^ 53 \<Longrightarrow> toNumber sign n = Num (sign * int n)"
proof -
  assume a: "n < 2 ^ 53"
  have "\<not> overflows n"
  proof
    assume "overflows n"
    then have "2 ^ 53 \<le> n" by (rule overflows_large)
    with a show False by linarith
  qed
  with a show ?thesis by (simp add: toNumber_def roundToDouble_small)
qed











lemma get_param_add:
  "get_param (add_parameter m p) k =
     (if fst (key_value p) = k then merged (get_param m k) (snd (key_value p)) else get_param m k)"
  by (auto simp: add_parameter_def get_param_def map_get_set split: prod.splits)

lemma get_param_foldl:
  "get_param (foldl add_parameter m ps) k =
     foldl merged (get_param m k) (map snd (filter (\<lambda>kv. fst kv = k) (map key_value ps)))"
  by (induction ps arbitrary: m) (simp_all add: get_param_add)

lemma truthy_merged: "truthy p \<Longrightarrow> truthy (merged p v)"
  by (simp add: merged_def truthy_def)

lemma foldl_merged:
  "truthy p \<Longrightarrow> foldl merged p vs = Some (join '','' (str_or_empty p # map str_or_empty vs))"
proof (induction vs arbitrary: p)
  case Nil
  then show ?case by (auto simp: truthy_def str_or_empty_def split: option.splits)
next
  case (Cons v vs)
  have "foldl merged p (v # vs) = foldl merged (merged p v) vs" by simp
  also have "\<dots> = Some (join '','' (str_or_empty (merged p v) # map str_or_empty vs))"
    using Cons.IH[OF truthy_merged[OF Cons.prems]] .
  also have "str_or_empty (merged p v) = str_or_empty p @ '','' @ str_or_empty v"
    using Cons.prems by (simp add: merged_def str_or_empty_def)
  finally show ?case by (simp add: join_Cons)
qed

lemma remdups_snoc: "remdups (xs @ [k]) = filter (\<lambda>x. x \<noteq> k) (remdups xs) @ [k]"
  by (induction xs) auto

lemma first_seen_Cons:
  "rev (remdups (rev (k # ks))) = k # filter (\<lambda>x. x \<noteq> k) (rev (remdups (rev ks)))"
  by (simp add: remdups_snoc rev_filter)

lemma map_keys_add:
  "map_keys (add_parameter m p) =
     (if fst (key_value p) \<in> set (map_keys m) then map_keys m else map_keys m @ [fst (key_value p)])"
  by (simp add: add_parameter_def map_keys_set split: prod.splits)

lemma map_keys_foldl:
  "map_keys (foldl add_parameter m ps) =
     map_keys m @ filter (\<lambda>k. k \<notin> set (map_keys m)) (rev (remdups (rev (map (\<lambda>p. fst (key_value p)) ps))))"
proof (induction ps arbitrary: m)
  case Nil
  then show ?case by simp
next
  case (Cons p ps)
  let ?k = "fst (key_value p)"
  let ?fs = "rev (remdups (rev (map (\<lambda>p. fst (key_value p)) ps)))"
  have fs: "rev (remdups (rev (map (\<lambda>p. fst (key_value p)) (p # ps)))) = ?k # filter (\<lambda>x. x \<noteq> ?k) ?fs"
    using first_seen_Cons[of ?k "map (\<lambda>p. fst (key_value p)) ps"] by simp
  show ?case
  proof (cases "?k \<in> set (map_keys m)")
    case True
    then have "filter (\<lambda>k. k \<notin> set (map_keys m)) (filter (\<lambda>x. x \<noteq> ?k) ?fs) = filter (\<lambda>k. k \<notin> set (map_keys m)) ?fs"
      by (auto intro: filter_cong)
    with True show ?thesis
      unfolding fs by (simp add: Cons.IH map_keys_add)
  next
    case False
    then have "filter (\<lambda>k. k \<notin> set (map_keys m)) (filter (\<lambda>x. x \<noteq> ?k) ?fs) = filter (\<lambda>k. k \<noteq> ?k \<and> k \<notin> set (map_keys m)) ?fs"
      by (auto intro: filter_cong)
    with False show ?thesis
      unfolding fs by (simp add: Cons.IH map_keys_add)
  qed
qed

lemma filter_eq_distinct: "distinct xs \<Longrightarrow> filter (\<lambda>x. x = k) xs = (if k \<in> set xs then [k] else [])"
  by (induction xs) auto

lemma filter_key_nonempty:
  "map snd (filter (\<lambda>kv. fst kv = k) kvs) \<noteq> [] \<Longrightarrow> k \<in> fst ` set kvs"
  by (induction kvs) (auto split: if_splits)

section \<open>The field parsers\<close>

text \<open>
  C6, as amended. For every string \<open>s\<close>, \<open>parseNumber s\<close> is absent exactly when \<open>parseInt s\<close>
  fails (\<open>NaN\<close>) or gives zero, and is the number \<open>parseInt s\<close> otherwise; \<open>parseNumber "0"\<close> is
  absent. For white space, an optional sign and decimal digits, that number is the one for
  the signed value of the digits: absent when the value is zero, the integer itself when
  the value is below \<open>2^53\<close>, and in general the double nearest to it. When no digit
  follows the white space and sign, the parse fails and the result is absent.
\<close>

theorem parseNumber_nonzero_or_absent:
  "(parseNumber s = None \<longleftrightarrow> parseInt s = NaN \<or> parseInt s = Num 0) \<and>
   (parseInt s \<noteq> NaN \<and> parseInt s \<noteq> Num 0 \<longrightarrow> parseNumber s = Some (parseInt s)) \<and>
   parseNumber ''0'' = None \<and>
   (list_all isWhiteSpace ws \<and> (sg = [] \<or> sg = ''+'' \<or> sg = ''-'') \<and>
    ds \<noteq> [] \<and> list_all (isRadixDigit 10) ds \<and>
    (rest = [] \<or> \<not> isRadixDigit 10 (hd rest)) \<and>
    \<not> startsWith (ds @ rest) ''0x'' \<and> \<not> startsWith (ds @ rest) ''0X'' \<longrightarrow>
    parseInt (ws @ sg @ ds @ rest) = toNumber (if sg = ''-'' then - 1 else 1) (mathInt 10 ds) \<and>
    parseNumber (ws @ sg @ ds @ rest) =
      (if mathInt 10 ds = 0 then None
       else Some (toNumber (if sg = ''-'' then - 1 else 1) (mathInt 10 ds))) \<and>
    (mathInt 10 ds < 2 ^ 53 \<longrightarrow>
       toNumber (if sg = ''-'' then - 1 else 1) (mathInt 10 ds) =
         Num ((if sg = ''-'' then - 1 else 1) * int (mathInt 10 ds)))) \<and>
   (list_all isWhiteSpace ws \<and>
    (sg = ''+'' \<or> sg = ''-'' \<or>
     sg = [] \<and> (rest = [] \<or> \<not> isWhiteSpace (hd rest) \<and>
                             hd rest \<noteq> CHR ''+'' \<and> hd rest \<noteq> CHR ''-'')) \<and>
    (rest = [] \<or> \<not> isRadixDigit 10 (hd rest)) \<longrightarrow>
    parseInt (ws @ sg @ rest) = NaN \<and> parseNumber (ws @ sg @ rest) = None)"
proof -
  have absent: "parseNumber t = None \<longleftrightarrow> parseInt t = NaN \<or> parseInt t = Num 0" for t
    by (cases "parseInt t") (simp_all add: parseNumber_def Let_def)
  have present: "parseNumber t = Some (parseInt t)"
    if "parseInt t \<noteq> NaN" "parseInt t \<noteq> Num 0" for t
    using that by (cases "parseInt t") (simp_all add: parseNumber_def Let_def)
  have "parseInt ''0'' = toNumber 1 0"
    by (simp add: parseInt_def isWhiteSpace_def isRadixDigit_def digitValue_def mathInt_def)
  then have "parseInt ''0'' = Num 0" by (simp add: toNumber_small)
  then have zero: "parseNumber ''0'' = None" using absent by blast
  have decimal:
    "parseInt (ws @ sg @ ds @ rest) = toNumber (if sg = ''-'' then - 1 else 1) (mathInt 10 ds) \<and>
     parseNumber (ws @ sg @ ds @ rest) =
       (if mathInt 10 ds = 0 then None
        else Some (toNumber (if sg = ''-'' then - 1 else 1) (mathInt 10 ds))) \<and>
     (mathInt 10 ds < 2 ^ 53 \<longrightarrow>
        toNumber (if sg = ''-'' then - 1 else 1) (mathInt 10 ds) =
          Num ((if sg = ''-'' then - 1 else 1) * int (mathInt 10 ds)))"
    if h: "list_all isWhiteSpace ws \<and> (sg = [] \<or> sg = ''+'' \<or> sg = ''-'') \<and>
        ds \<noteq> [] \<and> list_all (isRadixDigit 10) ds \<and>
        (rest = [] \<or> \<not> isRadixDigit 10 (hd rest)) \<and>
        \<not> startsWith (ds @ rest) ''0x'' \<and> \<not> startsWith (ds @ rest) ''0X''"
  proof -
    let ?sign = "if sg = ''-'' then - 1 else (1::int)"
    let ?n = "mathInt 10 ds"
    have sign: "?sign \<noteq> 0" by simp
    have p: "parseInt (ws @ sg @ ds @ rest) = toNumber ?sign ?n"
      using h by (intro parseInt_decimal) blast+
    have z: "toNumber ?sign ?n = Num 0 \<longleftrightarrow> ?n = 0"
      using sign by (rule toNumber_zero)
    have n: "parseNumber (ws @ sg @ ds @ rest) = (if ?n = 0 then None else Some (toNumber ?sign ?n))"
    proof (cases "?n = 0")
      case True
      then have "parseInt (ws @ sg @ ds @ rest) = Num 0" using p z by simp
      then have "parseNumber (ws @ sg @ ds @ rest) = None" using absent by blast
      then show ?thesis using True by simp
    next
      case False
      then have "parseInt (ws @ sg @ ds @ rest) \<noteq> Num 0" using p z by simp
      moreover have "parseInt (ws @ sg @ ds @ rest) \<noteq> NaN"
        unfolding p by (rule toNumber_not_NaN)
      ultimately have "parseNumber (ws @ sg @ ds @ rest) = Some (parseInt (ws @ sg @ ds @ rest))"
        by (intro present)
      then show ?thesis using False p by simp
    qed
    have s: "?n < 2 ^ 53 \<longrightarrow> toNumber ?sign ?n = Num (?sign * int ?n)"
      using toNumber_small by blast
    from p n s show ?thesis by blast
  qed
  have failed: "parseInt (ws @ sg @ rest) = NaN \<and> parseNumber (ws @ sg @ rest) = None"
    if h: "list_all isWhiteSpace ws \<and>
        (sg = ''+'' \<or> sg = ''-'' \<or>
         sg = [] \<and> (rest = [] \<or> \<not> isWhiteSpace (hd rest) \<and>
                                 hd rest \<noteq> CHR ''+'' \<and> hd rest \<noteq> CHR ''-'')) \<and>
        (rest = [] \<or> \<not> isRadixDigit 10 (hd rest))"
  proof -
    have "parseInt (ws @ sg @ rest) = NaN"
      using h by (intro parseInt_no_digit) blast+
    then show ?thesis using absent by blast
  qed
  from absent present zero decimal failed show ?thesis by blast
qed

lemmas number_defs = parseNumber_def parseInt_def isWhiteSpace_def isRadixDigit_def
  digitValue_def mathInt_def

theorem parseNumber_nonzero_or_absent_witness:
  "list_all isWhiteSpace ''  '' \<and> list_all (isRadixDigit 10) ''12'' \<and>
   mathInt 10 ''12'' = 12 \<and>
   parseInt ''  -12px'' = Num (- 12) \<and> parseNumber ''  -12px'' = Some (Num (- 12)) \<and>
   parseInt ''  -px'' = NaN \<and> parseNumber ''  -px'' = None \<and> parseNumber ''0'' = None"
proof -
  have m: "mathInt 10 ''12'' = 12" by (simp add: mathInt_def digitValue_def)
  have a: "parseInt ''  -12px'' = Num (- 12) \<and> parseNumber ''  -12px'' = Some (Num (- 12)) \<and>
           parseInt ''  -px'' = NaN \<and> parseNumber ''  -px'' = None \<and> parseNumber ''0'' = None"
    using parseNumber_nonzero_or_absent [of "''  -12px''" "''  ''" "''-''" "''12''" "''px''"]
    by (simp add: isWhiteSpace_def isRadixDigit_def digitValue_def m)
  show ?thesis
    using a m by (simp add: isWhiteSpace_def isRadixDigit_def digitValue_def)
qed

text \<open>
  C6 as stated fails from \<open>2^53\<close> on: the leading integer of \<open>9007199254740993\<close> is
  \<open>2^53 + 1\<close>, and \<open>parseNumber\<close> returns the double \<open>9007199254740992\<close>.
\<close>

theorem parseNumber_rounds_large_integer:
  "mathInt 10 ''9007199254740993'' = 9007199254740993 \<and>
   parseInt ''9007199254740993'' = Num 9007199254740992 \<and>
   parseNumber ''9007199254740993'' = Some (Num 9007199254740992)"
proof -
  have b: "bit_length 9007199254740993 = 54" by (simp add: bit_length.simps)
  have o: "\<not> overflows 9007199254740992"
  proof
    assume "overflows 9007199254740992"
    then have "(2::nat) ^ 53 \<le> 9007199254740992 \<and> (2::nat) ^ 1024 \<le> 9007199254740992"
      using overflows_large by (simp add: overflows_def)
    moreover have "(2::nat) ^ 54 \<le> 2 ^ 1024" by (rule power_increasing) simp_all
    ultimately show False by simp
  qed
  show ?thesis
    by (simp add: number_defs toNumber_def roundToDouble_def b o)
qed

text \<open>
  C4, as amended. For every string, the keys of the result are the keys of its
  comma-separated pieces in first-seen order, each exactly once. Let \<open>vs\<close> be the values of
  the pieces with key \<open>k\<close>, in order. If \<open>k\<close> occurs, the result has exactly one entry for
  \<open>k\<close>, whose value is what the assignment \<open>merged\<close> makes of \<open>vs\<close> from left to right; and
  if moreover the first of its values is not empty, that value is all of \<open>vs\<close> joined with
  commas in encounter order (a piece with no \<open>=\<close> counting as an empty value).
\<close>

theorem parseParameters_repeated_key:
  "map ParameterKey (parseParameters s) =
     rev (remdups (rev (map (\<lambda>p. fst (key_value p)) (split CHR '','' s)))) \<and>
   distinct (map ParameterKey (parseParameters s)) \<and>
   (vs = map snd (filter (\<lambda>kv. fst kv = k) (map key_value (split CHR '','' s))) \<and> vs \<noteq> [] \<longrightarrow>
      filter (\<lambda>p. ParameterKey p = k) (parseParameters s) =
        [\<lparr>ParameterKey = k, ParameterValue = foldl merged None vs\<rparr>] \<and>
      (truthy (hd vs) \<longrightarrow>
         filter (\<lambda>p. ParameterKey p = k) (parseParameters s) =
           [\<lparr>ParameterKey = k, ParameterValue = Some (join '','' (map str_or_empty vs))\<rparr>]))"
proof -
  let ?m = "parameters_of s"
  let ?kvs = "map key_value (split CHR '','' s)"
  have keys: "map_keys ?m = rev (remdups (rev (map (\<lambda>p. fst (key_value p)) (split CHR '','' s))))"
    using map_keys_foldl [of "[]" "split CHR '','' s"]
    unfolding parameters_of_def by (simp add: map_keys_def)
  have pk: "map ParameterKey (parseParameters s) = map_keys ?m"
    by (simp add: parseParameters_def Let_def comp_def)
  have dist: "distinct (map_keys ?m)" by (simp add: keys)
  have sel: "filter (\<lambda>p. ParameterKey p = k) (parseParameters s) =
          map (\<lambda>key. \<lparr>ParameterKey = key, ParameterValue = get_param ?m key\<rparr>)
            (filter (\<lambda>x. x = k) (map_keys ?m))"
    by (simp add: parseParameters_def Let_def filter_map comp_def)
  let ?vs = "map snd (filter (\<lambda>kv. fst kv = k) ?kvs)"
  have entry: "filter (\<lambda>p. ParameterKey p = k) (parseParameters s) =
                 [\<lparr>ParameterKey = k, ParameterValue = get_param ?m k\<rparr>]"
    if ne: "?vs \<noteq> []"
  proof -
    have "k \<in> fst ` set ?kvs" using ne by (rule filter_key_nonempty)
    then have mem: "k \<in> set (map_keys ?m)" by (simp add: keys image_image)
    show ?thesis using mem by (simp add: sel filter_eq_distinct[OF dist])
  qed
  have "get_param [] k = None" by (simp add: get_param_def)
  then have gp: "get_param ?m k = foldl merged None ?vs"
    unfolding parameters_of_def by (simp add: get_param_foldl)
  have val: "get_param ?m k = Some (join '','' (map str_or_empty ?vs))"
    if ne: "?vs \<noteq> []" and first: "truthy (hd ?vs)"
  proof -
    obtain v vs' where vsC: "?vs = v # vs'" using ne by (cases ?vs) auto
    note gp
    also have "foldl merged None ?vs = foldl merged v vs'"
      unfolding vsC by (simp add: merged_def truthy_def)
    also have "\<dots> = Some (join '','' (str_or_empty v # map str_or_empty vs'))"
      using first unfolding vsC by (simp add: foldl_merged)
    also have "\<dots> = Some (join '','' (map str_or_empty ?vs))"
      unfolding vsC by simp
    finally show ?thesis .
  qed
  show ?thesis
  proof (intro conjI impI)
    show "map ParameterKey (parseParameters s) =
            rev (remdups (rev (map (\<lambda>p. fst (key_value p)) (split CHR '','' s))))"
      using pk keys by simp
    show "distinct (map ParameterKey (parseParameters s))"
      using pk dist by simp
  next
    assume a: "vs = ?vs \<and> vs \<noteq> []"
    then have "?vs \<noteq> []" by blast
    from a have eq: "vs = ?vs" by (rule conjunct1)
    show "filter (\<lambda>p. ParameterKey p = k) (parseParameters s) =
            [\<lparr>ParameterKey = k, ParameterValue = foldl merged None vs\<rparr>]"
      unfolding eq entry[OF \<open>?vs \<noteq> []\<close>] gp by (rule refl)
  next
    assume a: "vs = ?vs \<and> vs \<noteq> []" and t: "truthy (hd vs)"
    from a have eq: "vs = ?vs" by (rule conjunct1)
    from a have ne: "?vs \<noteq> []" by blast
    from t have t': "truthy (hd ?vs)" by (simp only: eq[symmetric])
    show "filter (\<lambda>p. ParameterKey p = k) (parseParameters s) =
           [\<lparr>ParameterKey = k, ParameterValue = Some (join '','' (map str_or_empty vs))\<rparr>]"
      unfolding eq entry[OF ne] val[OF ne t'] by (rule refl)
  qed
qed

theorem parseParameters_repeated_key_witness:
  "map key_value (split CHR '','' ''A=1,B=x,A=2'') =
     [(''A'', Some ''1''), (''B'', Some ''x''), (''A'', Some ''2'')] \<and>
   truthy (Some ''1'') \<and>
   map ParameterKey (parseParameters ''A=1,B=x,A=2'') = [''A'', ''B''] \<and>
   filter (\<lambda>p. ParameterKey p = ''A'') (parseParameters ''A=1,B=x,A=2'') =
     [\<lparr>ParameterKey = ''A'', ParameterValue = Some ''1,2''\<rparr>] \<and>
   map ParameterKey (parseParameters ''A=,B,A=2'') = [''A'', ''B''] \<and>
   map ParameterKey (parseParameters []) = [[]]"
proof -
  have k1: "key_value ''A=1'' = (''A'', Some ''1'')" and k2: "key_value ''B=x'' = (''B'', Some ''x'')"
    and k3: "key_value ''A=2'' = (''A'', Some ''2'')" and k4: "key_value ''A='' = (''A'', Some [])"
    and k5: "key_value ''B'' = (''B'', None)" and k6: "key_value [] = ([], None)"
    by (simp_all add: key_value_def trim_def isWhiteSpace_def)
  have kv: "map key_value (split CHR '','' ''A=1,B=x,A=2'') =
              [(''A'', Some ''1''), (''B'', Some ''x''), (''A'', Some ''2'')]"
    by (simp add: k1 k2 k3)
  have 1: "map ParameterKey (parseParameters ''A=1,B=x,A=2'') = [''A'', ''B''] \<and>
           filter (\<lambda>p. ParameterKey p = ''A'') (parseParameters ''A=1,B=x,A=2'') =
             [\<lparr>ParameterKey = ''A'', ParameterValue = Some ''1,2''\<rparr>]"
    using parseParameters_repeated_key [of "''A=1,B=x,A=2''" "[Some ''1'', Some ''2'']" "''A''"]
    by (simp add: k1 k2 k3 truthy_def str_or_empty_def merged_def)
  have 2: "map ParameterKey (parseParameters ''A=,B,A=2'') = [''A'', ''B'']"
    using parseParameters_repeated_key [of "''A=,B,A=2''" "[]" "[]"]
    by (simp add: k3 k4 k5)
  have 3: "map ParameterKey (parseParameters []) = [[]]"
    using parseParameters_repeated_key [of "[]" "[]" "[]"]
    by (simp add: k6)
  show ?thesis using kv 1 2 3 by (simp add: truthy_def)
qed

text \<open>
  C4 as stated fails when a key's first value is empty: in \<open>A=,A=2\<close> the key \<open>A\<close> has the
  values \<open>""\<close> and \<open>2\<close>, which joined with a comma are \<open>,2\<close>, but the entry's value is \<open>2\<close>.
\<close>

theorem parseParameters_empty_first_value:
  "map key_value (split CHR '','' ''A=,A=2'') = [(''A'', Some []), (''A'', Some ''2'')] \<and>
   join '','' [[], ''2''] = '',2'' \<and>
   parseParameters ''A=,A=2'' = [\<lparr>ParameterKey = ''A'', ParameterValue = Some ''2''\<rparr>]"
  by (simp add: parseParameters_def parameters_of_def add_parameter_def key_value_def trim_def
        isWhiteSpace_def truthy_def map_keys_def get_param_def merged_def)



section \<open>Lookup, deployment and outputs\<close>

lemma getStack_run:
  "getStack cfn name tr =
     ((case describeStacks cfn tr name of
         Inr stacks \<Rightarrow> Inr (case stacks of None \<Rightarrow> None | Some [] \<Rightarrow> None | Some (s # _) \<Rightarrow> Some s)
       | Inl e \<Rightarrow> if error_code e = Some ''ValidationError'' \<and> str_includes (error_message e) ''does not exist''
                  then Inr None else Inl e),
      tr @ [DescribeStacks name])"
  by (simp add: getStack_def io_defs split: sum.splits)

text \<open>
  C3, as amended. \<open>getStack\<close> sends one \<open>describeStacks\<close> request. When the response lists
  stacks, it returns the first. It returns "not found" exactly when the response lists no
  stack (no list, or an empty one) or the provider raises an error with code
  \<open>ValidationError\<close> whose message contains \<open>does not exist\<close>. Every other error of the
  provider is raised again as it is.
\<close>

theorem getStack_outcomes:
  "snd (getStack cfn name tr) = tr @ [DescribeStacks name] \<and>
   (\<forall>s ss. describeStacks cfn tr name = Inr (Some (s # ss)) \<longrightarrow>
        fst (getStack cfn name tr) = Inr (Some s)) \<and>
   (fst (getStack cfn name tr) = Inr None \<longleftrightarrow>
      describeStacks cfn tr name = Inr None \<or> describeStacks cfn tr name = Inr (Some []) \<or>
      (\<exists>m. describeStacks cfn tr name = Inl (AWSError ''ValidationError'' m) \<and>
           str_includes m ''does not exist'')) \<and>
   (\<forall>e. describeStacks cfn tr name = Inl e \<longrightarrow>
        \<not> (error_code e = Some ''ValidationError'' \<and>
           str_includes (error_message e) ''does not exist'') \<longrightarrow>
        fst (getStack cfn name tr) = Inl e)"
proof (intro conjI allI impI)
  show "snd (getStack cfn name tr) = tr @ [DescribeStacks name]"
    by (simp add: getStack_run)
  show "fst (getStack cfn name tr) = Inr (Some s)"
    if "describeStacks cfn tr name = Inr (Some (s # ss))" for s ss
    using that by (simp add: getStack_run)
  show "fst (getStack cfn name tr) = Inl e"
    if "describeStacks cfn tr name = Inl e"
      "\<not> (error_code e = Some ''ValidationError'' \<and> str_includes (error_message e) ''does not exist'')" for e
    using that by (simp add: getStack_run)
  show "fst (getStack cfn name tr) = Inr None \<longleftrightarrow>
      describeStacks cfn tr name = Inr None \<or> describeStacks cfn tr name = Inr (Some []) \<or>
      (\<exists>m. describeStacks cfn tr name = Inl (AWSError ''ValidationError'' m) \<and>
           str_includes m ''does not exist'')"
  proof (cases "describeStacks cfn tr name")
    case (Inl e)
    then show ?thesis by (cases e) (auto simp: getStack_run)
  next
    case (Inr stacks)
    then show ?thesis by (auto simp: getStack_run split: option.splits list.splits)
  qed
qed

theorem getStack_outcomes_witness:
  "describeStacks example_cfn [] ''web'' = Inr (Some [example_stack]) \<and>
   getStack example_cfn ''web'' [] = (Inr (Some example_stack), [DescribeStacks ''web'']) \<and>
   describeStacks example_cfn_absent [] ''web'' =
     Inl (AWSError ''ValidationError'' ''Stack with id web does not exist'') \<and>
   str_includes ''Stack with id web does not exist'' ''does not exist'' \<and>
   fst (getStack example_cfn_absent ''web'' []) = Inr None \<and>
   fst (getStack example_cfn_denied ''web'' []) =
     Inl (AWSError ''AccessDenied'' ''not authorized to perform DescribeStacks'')"
proof -
  have inc: "str_includes ''Stack with id web does not exist'' ''does not exist''" by simp
  have 1: "getStack example_cfn ''web'' [] = (Inr (Some example_stack), [DescribeStacks ''web''])"
    using getStack_outcomes [of example_cfn "''web''" "[]"]
    by (simp add: example_defs prod_eq_iff)
  have 2: "fst (getStack example_cfn_absent ''web'' []) = Inr None"
    using getStack_outcomes [of example_cfn_absent "''web''" "[]"] inc
    by (simp add: example_defs)
  have 3: "fst (getStack example_cfn_denied ''web'' []) =
     Inl (AWSError ''AccessDenied'' ''not authorized to perform DescribeStacks'')"
    using getStack_outcomes [of example_cfn_denied "''web''" "[]"]
    by (simp add: example_defs)
  show ?thesis using inc 1 2 3 by (simp add: example_defs)
qed

text \<open>
  C3 as stated fails: "not found" is returned also when the provider raises no error and
  its response lists no stack.
\<close>

theorem getStack_not_found_without_error:
  "describeStacks example_cfn_lists_nothing [] ''web'' = Inr (Some []) \<and>
   getStack example_cfn_lists_nothing ''web'' [] = (Inr None, [DescribeStacks ''web''])"
  by (simp add: getStack_def io_defs example_defs)

lemma cleanupChangeSet_run:
  "cleanupChangeSet cfn stack params noEmpty noDelete tr =
     (let n = ChangeSetName params; s = StackName params; tr1 = tr @ [DescribeChangeSet n s] in
      case describeChangeSet cfn tr n s of
        Inl e \<Rightarrow> (Inl e, tr1)
      | Inr st \<Rightarrow>
          if Status st = Some ''FAILED'' then
            (case (if noDelete then Inr () else deleteChangeSet cfn tr1 n s) of
               Inl e \<Rightarrow> (Inl e, tr1 @ [DeleteChangeSet n s])
             | Inr _ \<Rightarrow>
                 (if noEmpty \<and>
                     list_ex (\<lambda>err. case StatusReason st of None \<Rightarrow> False
                                         | Some reason \<Rightarrow> str_includes reason err)
                      knownErrorMessages
                  then Inr (StackId stack)
                  else Inl (Error (''Failed to create Change Set: '' @ ToString (StatusReason st))),
                  if noDelete then tr1 else tr1 @ [DeleteChangeSet n s]))
          else (Inr None, tr1))"
  by (auto simp: cleanupChangeSet_def io_defs Let_def split: sum.splits)

lemma updateStack_wait_failed:
  assumes "createChangeSet cfn tr params = Inr cset"
    and "waitFor cfn (tr @ [CreateChangeSet params])
           (changeSetCreateComplete (ChangeSetName params) (StackName params)) = Inl e"
  shows "updateStack env cfn stack params noEmpty noExecute noDelete tr =
           cleanupChangeSet cfn stack params noEmpty noDelete
             (tr @ [CreateChangeSet params,
                    WaitFor (changeSetCreateComplete (ChangeSetName params) (StackName params))])"
  using assms by (simp add: updateStack_def io_defs)

text \<open>
  C8. When the change set was submitted, the wait for its creation fails and the status
  then fetched is anything but \<open>FAILED\<close> (or is missing), \<open>updateStack\<close> returns
  \<open>undefined\<close>: no error is raised, no stack identifier is returned, and the calls of the
  run are the three named, with no \<open>deleteChangeSet\<close>.
\<close>

theorem updateStack_wait_failed_other_status:
  assumes "createChangeSet cfn tr params = Inr cset"
    and "waitFor cfn (tr @ [CreateChangeSet params])
           (changeSetCreateComplete (ChangeSetName params) (StackName params)) = Inl e"
    and "describeChangeSet cfn
           (tr @ [CreateChangeSet params,
                  WaitFor (changeSetCreateComplete (ChangeSetName params) (StackName params))])
           (ChangeSetName params) (StackName params) = Inr st"
    and "Status st \<noteq> Some ''FAILED''"
  shows "updateStack env cfn stack params noEmpty noExecute noDelete tr =
           (Inr None,
            tr @ [CreateChangeSet params,
                  WaitFor (changeSetCreateComplete (ChangeSetName params) (StackName params)),
                  DescribeChangeSet (ChangeSetName params) (StackName params)])"
  using assms by (simp add: updateStack_wait_failed cleanupChangeSet_run Let_def)

theorem updateStack_wait_failed_other_status_witness:
  "Status \<lparr>Status = Some ''CREATE_IN_PROGRESS'', StatusReason = None\<rparr> \<noteq> Some ''FAILED'' \<and>
   updateStack example_env example_cfn_pending example_stack (change_set_request example_params)
     True False False [] =
     (Inr None,
      [CreateChangeSet (change_set_request example_params),
       WaitFor (changeSetCreateComplete ''web-CS'' ''web''),
       DescribeChangeSet ''web-CS'' ''web''])"
proof -
  let ?p = "change_set_request example_params"
  let ?w = "changeSetCreateComplete (ChangeSetName ?p) (StackName ?p)"
  have 1: "createChangeSet example_cfn_pending [] ?p =
             Inr (Some ''arn:aws:cloudformation:changeSet/web-CS/1'')"
    by (simp add: example_defs)
  have 2: "waitFor example_cfn_pending ([] @ [CreateChangeSet ?p]) ?w =
             Inl (AWSError ''ResourceNotReady'' ''Resource is not in the state changeSetCreateComplete'')"
    by (simp add: example_defs)
  have 3: "describeChangeSet example_cfn_pending ([] @ [CreateChangeSet ?p, WaitFor ?w])
             (ChangeSetName ?p) (StackName ?p) =
             Inr \<lparr>Status = Some ''CREATE_IN_PROGRESS'', StatusReason = None\<rparr>"
    by (simp add: example_defs)
  have 4: "Status \<lparr>Status = Some ''CREATE_IN_PROGRESS'', StatusReason = None\<rparr> \<noteq> Some ''FAILED''"
    by simp
  show ?thesis
    using 4 updateStack_wait_failed_other_status [OF 1 2 3 4, of example_env example_stack True False False]
    by (simp add: example_params_def change_set_request_def)
qed

text \<open>
  C1, as amended. The change set was submitted, the wait for its creation fails and the
  status then fetched is \<open>FAILED\<close>. Let \<open>deleted\<close> be the outcome of deleting the change set,
  which is skipped, and so succeeds, under \<open>noDeleteFailedChangeSet\<close>. If the deletion
  raises an error, \<open>updateStack\<close> raises that error. Otherwise it returns the identifier of
  the existing stack when \<open>noEmptyChangeSet\<close> is set and the reason contains one of the two
  patterns, and else raises an error whose message ends with the provider's reason (the
  text \<open>undefined\<close> when there is none).
\<close>

theorem updateStack_failed_change_set:
  assumes "createChangeSet cfn tr params = Inr cset"
    and "waitFor cfn (tr @ [CreateChangeSet params])
           (changeSetCreateComplete (ChangeSetName params) (StackName params)) = Inl e"
    and "describeChangeSet cfn
           (tr @ [CreateChangeSet params,
                  WaitFor (changeSetCreateComplete (ChangeSetName params) (StackName params))])
           (ChangeSetName params) (StackName params) = Inr st"
    and "Status st = Some ''FAILED''"
    and "deleted =
           (if noDelete then Inr ()
            else deleteChangeSet cfn
                   (tr @ [CreateChangeSet params,
                          WaitFor (changeSetCreateComplete (ChangeSetName params) (StackName params)),
                          DescribeChangeSet (ChangeSetName params) (StackName params)])
                   (ChangeSetName params) (StackName params))"
  shows "fst (updateStack env cfn stack params noEmpty noExecute noDelete tr) =
           (case deleted of
              Inl e' \<Rightarrow> Inl e'
            | Inr _ \<Rightarrow>
                if noEmpty \<and>
                   (\<exists>reason. StatusReason st = Some reason \<and>
                      (str_includes reason ''No updates are to be performed'' \<or>
                       str_includes reason ''The submitted information didn't contain changes''))
                then Inr (StackId stack)
                else Inl (Error (''Failed to create Change Set: '' @ ToString (StatusReason st))))"
proof -
  have nc: "list_ex (\<lambda>err. case StatusReason st of None \<Rightarrow> False
                         | Some reason \<Rightarrow> str_includes reason err) knownErrorMessages \<longleftrightarrow>
        (\<exists>reason. StatusReason st = Some reason \<and>
           (str_includes reason ''No updates are to be performed'' \<or>
            str_includes reason ''The submitted information didn't contain changes''))"
    by (cases "StatusReason st") (simp_all add: knownErrorMessages_def)
  show ?thesis
    using assms(1-4) unfolding assms(5)
    by (simp add: updateStack_wait_failed cleanupChangeSet_run Let_def nc split: sum.splits)
qed

theorem updateStack_failed_change_set_witness:
  "describeChangeSet example_cfn
     [CreateChangeSet (change_set_request example_params),
      WaitFor (changeSetCreateComplete ''web-CS'' ''web'')] ''web-CS'' ''web'' =
     Inr \<lparr>Status = Some ''FAILED'', StatusReason = Some ''No updates are to be performed.''\<rparr> \<and>
   str_includes ''No updates are to be performed.'' ''No updates are to be performed'' \<and>
   fst (updateStack example_env example_cfn example_stack (change_set_request example_params)
          True False False []) = Inr (StackId example_stack) \<and>
   fst (updateStack example_env example_cfn example_stack (change_set_request example_params)
          False False True []) =
     Inl (Error ''Failed to create Change Set: No updates are to be performed.'')"
proof -
  let ?p = "change_set_request example_params"
  let ?w = "changeSetCreateComplete (ChangeSetName ?p) (StackName ?p)"
  let ?st = "\<lparr>Status = Some ''FAILED'', StatusReason = Some ''No updates are to be performed.''\<rparr>"
  have 1: "createChangeSet example_cfn [] ?p =
             Inr (Some ''arn:aws:cloudformation:changeSet/web-CS/1'')"
    by (simp add: example_defs)
  have 2: "waitFor example_cfn ([] @ [CreateChangeSet ?p]) ?w =
             Inl (AWSError ''ResourceNotReady'' ''Resource is not in the state changeSetCreateComplete'')"
    by (simp add: example_defs)
  have 3: "describeChangeSet example_cfn ([] @ [CreateChangeSet ?p, WaitFor ?w])
             (ChangeSetName ?p) (StackName ?p) = Inr ?st"
    by (simp add: example_defs)
  have 4: "Status ?st = Some ''FAILED''" by simp
  have inc: "str_includes ''No updates are to be performed.'' ''No updates are to be performed''"
    by simp
  have a: "fst (updateStack example_env example_cfn example_stack ?p True False False []) =
             Inr (StackId example_stack)"
    using updateStack_failed_change_set [OF 1 2 3 4 refl, of example_env example_stack True False] inc
    by (simp add: example_cfn_def)
  have b: "fst (updateStack example_env example_cfn example_stack ?p False False True []) =
             Inl (Error ''Failed to create Change Set: No updates are to be performed.'')"
    using updateStack_failed_change_set [OF 1 2 3 4 refl, of example_env example_stack False False]
    by (simp add: ToString_def)
  show ?thesis using 3 inc a b by (simp add: example_params_def change_set_request_def)
qed

text \<open>
  C1 as stated fails: with the wait failed, the status \<open>FAILED\<close>, \<open>noEmptyChangeSet\<close> set and
  a reason that contains the first pattern, \<open>updateStack\<close> raises the error of the refused
  \<open>deleteChangeSet\<close> request instead of returning the stack's identifier.
\<close>

theorem updateStack_delete_denied:
  "waitFor example_cfn_delete_denied [CreateChangeSet (change_set_request example_params)]
     (changeSetCreateComplete ''web-CS'' ''web'') =
     Inl (AWSError ''ResourceNotReady'' ''Resource is not in the state changeSetCreateComplete'') \<and>
   describeChangeSet example_cfn_delete_denied
     [CreateChangeSet (change_set_request example_params),
      WaitFor (changeSetCreateComplete ''web-CS'' ''web'')] ''web-CS'' ''web'' =
     Inr \<lparr>Status = Some ''FAILED'', StatusReason = Some ''No updates are to be performed.''\<rparr> \<and>
   str_includes ''No updates are to be performed.'' ''No updates are to be performed'' \<and>
   updateStack example_env example_cfn_delete_denied example_stack
     (change_set_request example_params) True False False [] =
     (Inl (AWSError ''AccessDenied'' ''not authorized to perform DeleteChangeSet''),
      [CreateChangeSet (change_set_request example_params),
       WaitFor (changeSetCreateComplete ''web-CS'' ''web''),
       DescribeChangeSet ''web-CS'' ''web'',
       DeleteChangeSet ''web-CS'' ''web''])"
  by (simp add: updateStack_def cleanupChangeSet_def io_defs example_defs)

lemma issued_append: "issued tr (tr @ cs) = cs"
  by (simp add: issued_def)

lemma getStack_found:
  "fst (getStack cfn name tr) = r \<Longrightarrow> getStack cfn name tr = (r, tr @ [DescribeStacks name])"
  by (simp add: getStack_run)

lemma cleanupChangeSet_calls:
  "\<exists>rest. snd (cleanupChangeSet cfn stack params noEmpty noDelete tr) = tr @ rest \<and>
          list_all (\<lambda>c. change_set_name c = None \<or> change_set_name c = Some (ChangeSetName params)) rest"
  by (auto simp: cleanupChangeSet_run Let_def split: sum.splits)

lemma genCfnUrl_calls:
  "\<exists>url. snd (genCfnUrl env a b tr) = tr @ [ShortenUrl url]"
  by (simp add: genCfnUrl_def io_defs Let_def)

lemma updateStack_calls:
  "\<exists>rest. snd (updateStack env cfn stack params noEmpty noExecute noDelete tr) =
            tr @ CreateChangeSet params # rest \<and>
          list_all (\<lambda>c. change_set_name c = None \<or> change_set_name c = Some (ChangeSetName params)) rest"
proof (cases "createChangeSet cfn tr params")
  case (Inl e)
  then show ?thesis by (simp add: updateStack_def io_defs)
next
  case (Inr cset)
  let ?w = "changeSetCreateComplete (ChangeSetName params) (StackName params)"
  let ?tr2 = "tr @ [CreateChangeSet params, WaitFor ?w]"
  show ?thesis
  proof (cases "waitFor cfn (tr @ [CreateChangeSet params]) ?w")
    case (Inl e)
    obtain rest where
      "snd (cleanupChangeSet cfn stack params noEmpty noDelete ?tr2) = ?tr2 @ rest"
      "list_all (\<lambda>c. change_set_name c = None \<or> change_set_name c = Some (ChangeSetName params)) rest"
      using cleanupChangeSet_calls by blast
    then show ?thesis
      using updateStack_wait_failed[OF Inr Inl] by simp
  next
    case ok: (Inr u)
    show ?thesis
    proof (cases noExecute)
      case True
      obtain url where "snd (genCfnUrl env (StackId stack) cset ?tr2) = ?tr2 @ [ShortenUrl url]"
        using genCfnUrl_calls by blast
      then show ?thesis
        using Inr ok True
        by (cases "genCfnUrl env (StackId stack) cset ?tr2")
           (auto simp: updateStack_def io_defs split: sum.splits)
    next
      case False
      then show ?thesis
        using Inr ok by (auto simp: updateStack_def io_defs split: sum.splits)
    qed
  qed
qed

text \<open>
  C5. When the lookup finds the stack, the second call of the run, after the lookup, is the
  \<open>createChangeSet\<close> request, and the change-set name it submits is the stack name followed
  by \<open>-CS\<close>; every call of the run that names a change set names that one.
\<close>

theorem deployStack_change_set_name:
  assumes found: "fst (getStack cfn (StackName params) tr) = Inr (Some stack)"
  shows "take 2 (issued tr (snd (deployStack env cfn params noEmpty noExecute noDelete tr))) =
           [DescribeStacks (StackName params), CreateChangeSet (change_set_request params)] \<and>
         ChangeSetName (change_set_request params) = StackName params @ ''-CS'' \<and>
         list_all (\<lambda>c. change_set_name c = None \<or>
                        change_set_name c = Some (StackName params @ ''-CS''))
           (issued tr (snd (deployStack env cfn params noEmpty noExecute noDelete tr)))"
proof -
  let ?p = "change_set_request params"
  have name: "ChangeSetName ?p = StackName params @ ''-CS''"
    by (simp add: change_set_request_def)
  have run: "deployStack env cfn params noEmpty noExecute noDelete tr =
          updateStack env cfn stack ?p noEmpty noExecute noDelete
            (tr @ [DescribeStacks (StackName params)])"
    using getStack_found[OF found] by (simp add: deployStack_def await_def)
  obtain rest where rest:
    "snd (updateStack env cfn stack ?p noEmpty noExecute noDelete (tr @ [DescribeStacks (StackName params)])) =
       (tr @ [DescribeStacks (StackName params)]) @ CreateChangeSet ?p # rest"
    "list_all (\<lambda>c. change_set_name c = None \<or> change_set_name c = Some (ChangeSetName ?p)) rest"
    using updateStack_calls by blast
  have "issued tr (snd (deployStack env cfn params noEmpty noExecute noDelete tr)) =
          DescribeStacks (StackName params) # CreateChangeSet ?p # rest"
    unfolding run rest(1) by (simp add: issued_def)
  then show ?thesis using rest(2) name by simp
qed

theorem deployStack_change_set_name_witness:
  "fst (getStack example_cfn ''web'' []) = Inr (Some example_stack) \<and>
   take 2 (issued [] (snd (deployStack example_env example_cfn example_params True False False []))) =
     [DescribeStacks ''web'', CreateChangeSet (change_set_request example_params)] \<and>
   ChangeSetName (change_set_request example_params) = ''web-CS'' \<and>
   list_all (\<lambda>c. change_set_name c = None \<or> change_set_name c = Some ''web-CS'')
     (issued [] (snd (deployStack example_env example_cfn example_params True False False [])))"
proof -
  have found: "fst (getStack example_cfn (StackName example_params) []) = Inr (Some example_stack)"
    by (simp add: getStack_def io_defs example_defs)
  show ?thesis
    using found deployStack_change_set_name [OF found, of example_env True False False]
    by (simp add: example_params_def)
qed

text \<open>
  C2, as amended. When the lookup reports the stack as nonexistent, \<open>deployStack\<close> sends
  the creation request and, once the provider has accepted it, waits for
  \<open>stackCreateComplete\<close>; when that wait succeeds it returns the identifier of the created
  stack. An error of the creation request or of the wait is raised to the caller. In every
  case the run makes exactly one stack-creation request and no change-set operation: its
  calls are the lookup, the creation request and, after an accepted request, the wait.
\<close>

theorem deployStack_absent_stack:
  assumes absent: "fst (getStack cfn (StackName params) tr) = Inr None"
    and tr1: "tr1 = tr @ [DescribeStacks (StackName params)]"
    and tr2: "tr2 = tr1 @ [CreateStack params]"
    and tr3: "tr3 = tr2 @ [WaitFor (stackCreateComplete (StackName params))]"
  shows "deployStack env cfn params noEmpty noExecute noDelete tr =
           (case createStack cfn tr1 params of
              Inl e \<Rightarrow> (Inl e, tr2)
            | Inr stackId \<Rightarrow>
                (case waitFor cfn tr2 (stackCreateComplete (StackName params)) of
                   Inl e \<Rightarrow> (Inl e, tr3)
                 | Inr _ \<Rightarrow> (Inr stackId, tr3))) \<and>
         filter stack_creation (issued tr (snd (deployStack env cfn params noEmpty noExecute noDelete tr))) =
           [CreateStack params] \<and>
         filter change_set_operation
           (issued tr (snd (deployStack env cfn params noEmpty noExecute noDelete tr))) = []"
proof -
  have run: "deployStack env cfn params noEmpty noExecute noDelete tr =
           (case createStack cfn tr1 params of
              Inl e \<Rightarrow> (Inl e, tr2)
            | Inr stackId \<Rightarrow>
                (case waitFor cfn tr2 (stackCreateComplete (StackName params)) of
                   Inl e \<Rightarrow> (Inl e, tr3)
                 | Inr _ \<Rightarrow> (Inr stackId, tr3)))"
    using getStack_found[OF absent]
    by (simp add: deployStack_def io_defs tr1 tr2 tr3 split: sum.splits)
  show ?thesis
    unfolding run by (simp add: tr1 tr2 tr3 issued_def split: sum.splits)
qed

theorem deployStack_absent_stack_witness:
  "fst (getStack example_cfn_absent ''web'' []) = Inr None \<and>
   deployStack example_env example_cfn_absent example_params True False False [] =
     (Inr (Some ''arn:aws:cloudformation:stack/web/2''),
      [DescribeStacks ''web'', CreateStack example_params, WaitFor (stackCreateComplete ''web'')])"
proof -
  have absent: "fst (getStack example_cfn_absent (StackName example_params) []) = Inr None"
    by (simp add: getStack_def io_defs example_defs)
  show ?thesis
    using absent deployStack_absent_stack [OF absent refl refl refl,
        of example_env True False False]
    by (simp add: example_defs)
qed

text \<open>
  C2 as stated fails: when the provider refuses the creation request, \<open>deployStack\<close> raises
  its error; it does not wait and returns no identifier.
\<close>

theorem deployStack_creation_refused:
  "fst (getStack example_cfn_create_refused ''web'' []) = Inr None \<and>
   deployStack example_env example_cfn_create_refused example_params True False False [] =
     (Inl (AWSError ''InsufficientCapabilitiesException''
             ''Requires capabilities : [CAPABILITY_IAM]''),
      [DescribeStacks ''web'', CreateStack example_params])"
  by (simp add: deployStack_def getStack_def io_defs example_defs)

lemma add_output_kept:
  "add_output m out = (if kept out then map_set m (fst (entry out)) (snd (entry out)) else m)"
  by (auto simp: add_output_def kept_def entry_def truthy_def str_or_empty_def split: option.splits)

lemma map_set_fresh: "k \<notin> fst ` set m \<Longrightarrow> map_set m k v = m @ [(k, v)]"
  by (induction m) auto

lemma set_map_set: "set (map_set m k v) \<subseteq> insert (k, v) (set m)"
  by (induction m) (auto split: if_splits)

lemma map_get_map_of: "map_get m k = map_of m k"
  by (induction m) auto

lemma map_of_map_set: "map_of (map_set m k v) = (map_of m)(k \<mapsto> v)"
  by (induction m) (auto simp: fun_eq_iff)

lemma foldl_add_output_get:
  "map_of (foldl add_output m outs) = map_of (rev (map entry (filter kept outs)) @ m)"
proof (induction outs arbitrary: m)
  case Nil
  then show ?case by simp
next
  case (Cons out outs)
  have step: "map_of (foldl add_output m (out # outs)) =
               map_of (rev (map entry (filter kept outs)) @ add_output m out)"
    using Cons.IH[of "add_output m out"] by simp
  show ?case
  proof (cases "kept out")
    case True
    obtain a b where ab: "entry out = (a, b)" by (cases "entry out")
    have "add_output m out = map_set m a b"
      using True ab add_output_kept[of m out] by simp
    then have "map_of (foldl add_output m (out # outs)) =
                 (map_of m)(a \<mapsto> b) ++ map_of (rev (map entry (filter kept outs)))"
      using step by (simp add: map_of_map_set)
    also have "\<dots> = map_of (rev (map entry (filter kept (out # outs))) @ m)"
      using True ab by simp
    finally show ?thesis .
  next
    case False
    then have "add_output m out = m" using add_output_kept[of m out] by simp
    then show ?thesis using step False by simp
  qed
qed

lemma foldl_add_output_distinct:
  "distinct (map fst (m @ map entry (filter kept outs))) \<Longrightarrow>
     foldl add_output m outs = m @ map entry (filter kept outs)"
proof (induction outs arbitrary: m)
  case Nil
  then show ?case by simp
next
  case (Cons out outs)
  show ?case
  proof (cases "kept out")
    case True
    with Cons.prems have fresh: "fst (entry out) \<notin> fst ` set m" by auto
    have "add_output m out = m @ [entry out]"
      using True map_set_fresh[OF fresh] add_output_kept[of m out] by simp
    moreover have "distinct (map fst ((m @ [entry out]) @ map entry (filter kept outs)))"
      using Cons.prems True by simp
    ultimately show ?thesis using Cons.IH[of "m @ [entry out]"] True by simp
  next
    case False
    then have "add_output m out = m" using add_output_kept[of m out] by simp
    with Cons.prems False show ?thesis using Cons.IH[of m] by simp
  qed
qed

lemma list_all_map_set: "list_all P m \<Longrightarrow> P (k, v) \<Longrightarrow> list_all P (map_set m k v)"
  by (induction m) auto

lemma add_output_nonempty:
  assumes "list_all (\<lambda>(k, v). k \<noteq> [] \<and> v \<noteq> []) m"
  shows "list_all (\<lambda>(k, v). k \<noteq> [] \<and> v \<noteq> []) (add_output m out)"
proof (cases "kept out")
  case True
  then have ne: "fst (entry out) \<noteq> [] \<and> snd (entry out) \<noteq> []"
    by (cases "OutputKey out"; cases "OutputValue out")
       (simp_all add: kept_def entry_def truthy_def str_or_empty_def)
  have "add_output m out = map_set m (fst (entry out)) (snd (entry out))"
    using True by (simp only: add_output_kept if_True)
  moreover have "list_all (\<lambda>(k, v). k \<noteq> [] \<and> v \<noteq> [])
                   (map_set m (fst (entry out)) (snd (entry out)))"
    using assms ne by (intro list_all_map_set) (simp_all add: case_prod_beta)
  ultimately show ?thesis by simp
next
  case False
  then have "add_output m out = m" by (simp only: add_output_kept if_False)
  then show ?thesis using assms by simp
qed

lemma foldl_add_output_nonempty:
  "list_all (\<lambda>(k, v). k \<noteq> [] \<and> v \<noteq> []) m \<Longrightarrow>
     list_all (\<lambda>(k, v). k \<noteq> [] \<and> v \<noteq> []) (foldl add_output m outs)"
  by (induction outs arbitrary: m) (simp_all add: add_output_nonempty)

lemma getStackOutputs_run:
  "getStackOutputs cfn stackId tr =
     (case fst (getStack cfn stackId tr) of
        Inl e \<Rightarrow> Inl e
      | Inr None \<Rightarrow> Inr []
      | Inr (Some stack) \<Rightarrow>
          Inr (case Outputs stack of None \<Rightarrow> [] | Some outs \<Rightarrow> foldl add_output [] outs),
      tr @ [DescribeStacks stackId])"
proof -
  obtain r where g: "getStack cfn stackId tr = (r, tr @ [DescribeStacks stackId])"
    using getStack_found[OF refl] by blast
  show ?thesis
    by (simp add: getStackOutputs_def await_def return_def g split: sum.splits option.splits)
qed

text \<open>
  C7, as amended. \<open>getStackOutputs\<close> returns the empty map when the lookup reports "not
  found", and also for a stack without outputs. For a stack with the outputs \<open>outs\<close> it
  returns a map of the \<open>entries\<close> of the outputs whose key and value are both present and
  not empty: each key is mapped to the value of its last such output, and when the keys
  are distinct the map is exactly \<open>entries\<close>, in order. An error of the lookup is raised
  to the caller.
\<close>

theorem getStackOutputs_entries:
  assumes entries: "entries = map entry (filter kept outs)"
  shows "(fst (getStack cfn stackId tr) = Inr None \<longrightarrow>
            fst (getStackOutputs cfn stackId tr) = Inr []) \<and>
         (\<forall>stack. fst (getStack cfn stackId tr) = Inr (Some stack) \<and> Outputs stack = None \<longrightarrow>
            fst (getStackOutputs cfn stackId tr) = Inr []) \<and>
         (\<forall>stack. fst (getStack cfn stackId tr) = Inr (Some stack) \<and> Outputs stack = Some outs \<longrightarrow>
            (\<exists>m. fst (getStackOutputs cfn stackId tr) = Inr m \<and>
                 (\<forall>k. map_get m k = map_of (rev entries) k) \<and>
                 (distinct (map fst entries) \<longrightarrow> m = entries))) \<and>
         (\<forall>e. fst (getStack cfn stackId tr) = Inl e \<longrightarrow>
            fst (getStackOutputs cfn stackId tr) = Inl e)"
proof (intro conjI allI impI)
  show "fst (getStackOutputs cfn stackId tr) = Inl e"
    if "fst (getStack cfn stackId tr) = Inl e" for e
    using that by (simp add: getStackOutputs_run)
  show "fst (getStackOutputs cfn stackId tr) = Inr []"
    if "fst (getStack cfn stackId tr) = Inr None"
    using that by (simp add: getStackOutputs_run)
  show "fst (getStackOutputs cfn stackId tr) = Inr []"
    if "fst (getStack cfn stackId tr) = Inr (Some stack) \<and> Outputs stack = None" for stack
    using that by (simp add: getStackOutputs_run)
  show "\<exists>m. fst (getStackOutputs cfn stackId tr) = Inr m \<and>
                 (\<forall>k. map_get m k = map_of (rev entries) k) \<and>
                 (distinct (map fst entries) \<longrightarrow> m = entries)"
    if "fst (getStack cfn stackId tr) = Inr (Some stack) \<and> Outputs stack = Some outs" for stack
  proof -
    have "fst (getStackOutputs cfn stackId tr) = Inr (foldl add_output [] outs)"
      using that by (simp add: getStackOutputs_run)
    moreover have "map_get (foldl add_output [] outs) k = map_of (rev entries) k" for k
      using foldl_add_output_get[of "[]" outs] by (simp add: map_get_map_of entries)
    moreover have "distinct (map fst entries) \<longrightarrow> foldl add_output [] outs = entries"
      using foldl_add_output_distinct[of "[]" outs] by (simp add: entries)
    ultimately show ?thesis by blast
  qed
qed

theorem getStackOutputs_entries_witness:
  "fst (getStack example_cfn ''web'' []) = Inr (Some example_stack) \<and>
   Outputs example_stack =
     Some [\<lparr>OutputKey = Some ''Url'', OutputValue = Some ''https://web''\<rparr>,
           \<lparr>OutputKey = Some ''Note'', OutputValue = Some []\<rparr>,
           \<lparr>OutputKey = Some ''Zone'', OutputValue = None\<rparr>,
           \<lparr>OutputKey = Some ''Port'', OutputValue = Some ''443''\<rparr>] \<and>
   fst (getStackOutputs example_cfn ''web'' []) =
     Inr [(''Url'', ''https://web''), (''Port'', ''443'')] \<and>
   fst (getStack example_cfn_absent ''web'' []) = Inr None \<and>
   fst (getStackOutputs example_cfn_absent ''web'' []) = Inr []"
proof -
  let ?outs = "[\<lparr>OutputKey = Some ''Url'', OutputValue = Some ''https://web''\<rparr>,
                \<lparr>OutputKey = Some ''Note'', OutputValue = Some []\<rparr>,
                \<lparr>OutputKey = Some ''Zone'', OutputValue = None\<rparr>,
                \<lparr>OutputKey = Some ''Port'', OutputValue = Some ''443''\<rparr>]"
  have e: "[(''Url'', ''https://web''), (''Port'', ''443'')] = map entry (filter kept ?outs)"
    by (simp add: entry_def kept_def truthy_def str_or_empty_def)
  have found: "fst (getStack example_cfn ''web'' []) = Inr (Some example_stack)"
    by (simp add: getStack_def io_defs example_defs)
  have absent: "fst (getStack example_cfn_absent ''web'' []) = Inr None"
    by (simp add: getStack_def io_defs example_defs)
  have o: "Outputs example_stack = Some ?outs" by (simp add: example_stack_def)
  have 1: "fst (getStackOutputs example_cfn ''web'' []) =
             Inr [(''Url'', ''https://web''), (''Port'', ''443'')]"
    using getStackOutputs_entries [OF e, of example_cfn "''web''" "[]"] found o
    by auto
  have 2: "fst (getStackOutputs example_cfn_absent ''web'' []) = Inr []"
    using getStackOutputs_entries [OF e, of example_cfn_absent "''web''" "[]"] absent
    by simp
  show ?thesis using e [symmetric] found absent o 1 2 by simp
qed

text \<open>
  C7 as stated fails: the output \<open>Note\<close> of the example stack has a key and a value, the
  empty string, and is not in the returned map.
\<close>

theorem getStackOutputs_drops_empty_value:
  "fst (getStack example_cfn ''web'' []) = Inr (Some example_stack) \<and>
   Outputs example_stack =
     Some [\<lparr>OutputKey = Some ''Url'', OutputValue = Some ''https://web''\<rparr>,
           \<lparr>OutputKey = Some ''Note'', OutputValue = Some []\<rparr>,
           \<lparr>OutputKey = Some ''Zone'', OutputValue = None\<rparr>,
           \<lparr>OutputKey = Some ''Port'', OutputValue = Some ''443''\<rparr>] \<and>
   fst (getStackOutputs example_cfn ''web'' []) =
     Inr [(''Url'', ''https://web''), (''Port'', ''443'')] \<and>
   map_get [(''Url'', ''https://web''), (''Port'', ''443'')] ''Note'' = None"
  by (simp add: getStackOutputs_def getStack_def io_defs example_defs example_stack_def
        add_output_def)

text \<open>
  C10. The loop body leaves the map as it is for an output whose key or value is missing
  or is the empty string, and no entry of a map that \<open>getStackOutputs\<close> returns has an empty
  key or an empty value.
\<close>

theorem getStackOutputs_skips_empty:
  "(OutputKey out = None \<or> OutputKey out = Some [] \<or>
    OutputValue out = None \<or> OutputValue out = Some [] \<longrightarrow> add_output outputs out = outputs) \<and>
   (\<forall>m. fst (getStackOutputs cfn stackId tr) = Inr m \<longrightarrow>
        list_all (\<lambda>(k, v). k \<noteq> [] \<and> v \<noteq> []) m)"
proof (intro conjI allI impI)
  show "add_output outputs out = outputs"
    if "OutputKey out = None \<or> OutputKey out = Some [] \<or>
        OutputValue out = None \<or> OutputValue out = Some []"
    using that by (auto simp: add_output_def split: option.splits)
  show "list_all (\<lambda>(k, v). k \<noteq> [] \<and> v \<noteq> []) m"
    if "fst (getStackOutputs cfn stackId tr) = Inr m" for m
    using that foldl_add_output_nonempty[of "[]"]
    by (auto simp: getStackOutputs_run split: sum.splits option.splits)
qed

theorem getStackOutputs_skips_empty_witness:
  "add_output [(''Url'', ''https://web'')] \<lparr>OutputKey = Some ''Note'', OutputValue = Some []\<rparr> =
     [(''Url'', ''https://web'')] \<and>
   add_output [(''Url'', ''https://web'')] \<lparr>OutputKey = Some [], OutputValue = Some ''x''\<rparr> =
     [(''Url'', ''https://web'')] \<and>
   fst (getStackOutputs example_cfn ''web'' []) =
     Inr [(''Url'', ''https://web''), (''Port'', ''443'')] \<and>
   list_all (\<lambda>(k, v). k \<noteq> [] \<and> v \<noteq> []) [(''Url'', ''https://web''), (''Port'', ''443'')]"
proof -
  have r: "fst (getStackOutputs example_cfn ''web'' []) =
     Inr [(''Url'', ''https://web''), (''Port'', ''443'')]"
    by (simp add: getStackOutputs_def getStack_def io_defs example_defs example_stack_def
          add_output_def)
  show ?thesis
    using r
      getStackOutputs_skips_empty [of "\<lparr>OutputKey = Some ''Note'', OutputValue = Some []\<rparr>"
        "[(''Url'', ''https://web'')]" example_cfn "''web''" "[]"]
      getStackOutputs_skips_empty [of "\<lparr>OutputKey = Some [], OutputValue = Some ''x''\<rparr>"
        "[(''Url'', ''https://web'')]" example_cfn "''web''" "[]"]
    by simp
qed

end
